theory Spec2Isabelle
  imports Main "HOL-Library.AList" "HOL-Library.Sublist"
begin

section \<open>Python values, exceptions and dictionaries\<close>

text \<open>
  The module \<^verbatim>\<open>data_management.py\<close> moves scalar values between dictionaries and SQL text.
  A value is a string, an integer or \<^verbatim>\<open>None\<close>; a string is a list of characters, one
  per code point. A dictionary keeps its insertion order, so it is an association list;
  its keys are distinct (stated as a hypothesis where a proof needs it).
\<close>

datatype pyval = PStr string | PInt int | PNone

datatype exn =
    KeyError
  | IndexError
  | TypeError
  | AttributeError
  | ZeroDivisionError
  | ResourceWarning
  | UnboundLocalError
  | SystemExit string
  | DatabaseError

type_synonym dict = "(string \<times> pyval) list"

definition keys :: "dict \<Rightarrow> string list" where
  "keys d = map fst d"

definition dict_get :: "dict \<Rightarrow> string \<Rightarrow> pyval option" where
  "dict_get d k = map_of d k"

text \<open>\<^verbatim>\<open>d[k] = v\<close>: an existing key keeps its place, a new key goes last.\<close>

definition dict_set :: "string \<Rightarrow> pyval \<Rightarrow> dict \<Rightarrow> dict" where
  "dict_set k v d = AList.update k v d"

abbreviation (input) sq :: string where
  "sq \<equiv> [CHR 0x27]"

abbreviation (input) crlf :: string where
  "crlf \<equiv> [CHR 0x0D, CHR 0x0A]"

text \<open>\<^verbatim>\<open>str(n)\<close> of an integer: its decimal digits, with a minus sign when negative.\<close>

fun digits :: "nat \<Rightarrow> string" where
  "digits n =
     (if n < 10 then [''0123456789'' ! n]
      else digits (n div 10) @ [''0123456789'' ! (n mod 10)])"

declare digits.simps [simp del]

definition str_of_int :: "int \<Rightarrow> string" where
  "str_of_int i = (if i < 0 then CHR ''-'' # digits (nat (- i)) else digits (nat i))"

text \<open>\<^verbatim>\<open>str(v)\<close>, which is also what an f-string writes for \<^verbatim>\<open>{v}\<close>.\<close>

fun py_str :: "pyval \<Rightarrow> string" where
  "py_str (PStr s) = s"
| "py_str (PInt i) = str_of_int i"
| "py_str PNone = ''None''"

text \<open>The truth value of \<^verbatim>\<open>if v:\<close>.\<close>

fun py_truthy :: "pyval \<Rightarrow> bool" where
  "py_truthy (PStr s) = (s \<noteq> [])"
| "py_truthy (PInt i) = (i \<noteq> 0)"
| "py_truthy PNone = False"

text \<open>\<^verbatim>\<open>p in s\<close> on strings: \<open>p\<close> occurs in \<open>s\<close> as a contiguous piece.\<close>

fun substring :: "string \<Rightarrow> string \<Rightarrow> bool" where
  "substring p [] = (p = [])"
| "substring p (c # cs) = (prefix p (c # cs) \<or> substring p cs)"

text \<open>\<^verbatim>\<open>p in v\<close> with a string \<open>p\<close>: an integer or \<^verbatim>\<open>None\<close> on the right raises.\<close>

fun py_in :: "string \<Rightarrow> pyval \<Rightarrow> exn + bool" where
  "py_in p (PStr s) = Inr (substring p s)"
| "py_in p (PInt i) = Inl TypeError"
| "py_in p PNone = Inl TypeError"

fun py_len :: "pyval \<Rightarrow> exn + nat" where
  "py_len (PStr s) = Inr (length s)"
| "py_len (PInt i) = Inl TypeError"
| "py_len PNone = Inl TypeError"

text \<open>\<^verbatim>\<open>s.replace("'", "''")\<close>: every single quote is written twice.\<close>

definition replace_sq :: "string \<Rightarrow> string" where
  "replace_sq s = concat (map (\<lambda>c. if c = CHR 0x27 then [CHR 0x27, CHR 0x27] else [c]) s)"

fun py_replace_sq :: "pyval \<Rightarrow> pyval" where
  "py_replace_sq (PStr s) = PStr (replace_sq s)"
| "py_replace_sq (PInt i) = PInt i"
| "py_replace_sq PNone = PNone"

text \<open>\<^verbatim>\<open>sep.join(xs)\<close>.\<close>

fun join :: "string \<Rightarrow> string list \<Rightarrow> string" where
  "join sep [] = []"
| "join sep [x] = x"
| "join sep (x # y # ys) = x @ sep @ join sep (y # ys)"

text \<open>\<^verbatim>\<open>s[:k]\<close>: a negative \<open>k\<close> counts from the end.\<close>

definition slice_to :: "string \<Rightarrow> int \<Rightarrow> string" where
  "slice_to s k = (if k < 0 then take (nat (int (length s) + k)) s else take (nat k) s)"

fun py_slice_to :: "pyval \<Rightarrow> int \<Rightarrow> exn + pyval" where
  "py_slice_to (PStr s) k = Inr (PStr (slice_to s k))"
| "py_slice_to (PInt i) k = Inl TypeError"
| "py_slice_to PNone k = Inl TypeError"

section \<open>The connection to the store\<close>

text \<open>
  The store is reached through a pyodbc connection, which the module only calls:
  \<^verbatim>\<open>cursor.execute\<close>, \<^verbatim>\<open>conn.commit\<close> and \<^verbatim>\<open>fetchall\<close>. Its behaviour is a parameter of
  the model. \<open>raises\<close> tells, from the calls made so far, whether the next call raises
  and what; \<open>answers\<close> gives the rows a query fetches (already zipped with the column
  names, as the module does); \<open>now\<close> is the formatted clock reading. \<open>trace\<close> records every call the
  module makes, including one that raises. \<open>cache\<close> is the module's
  \<^verbatim>\<open>storagetooling_tables_cache\<close>, one row list per table name; the class that declares
  its attributes is not part of the module, so its initial content is a parameter too.
  \<open>customers\<close>, \<open>stacks\<close> and \<open>sannav\<close> are the attributes of \<^verbatim>\<open>storage_data_object\<close>.
  \<open>set_order\<close> is the order in which a Python \<^verbatim>\<open>set\<close> built from a list is iterated: the
  language leaves it open, so it is a parameter as well.
\<close>

datatype event = Execute string | Commit

text \<open>
  A switchport record of the inventory API: scalar attributes by name, and the list of
  active zone names when the record has one.
\<close>

record sannav_record =
  entries :: dict
  activeZones :: "string list option"

record world =
  raises :: "event list \<Rightarrow> event \<Rightarrow> exn option"
  answers :: "event list \<Rightarrow> string \<Rightarrow> dict list"
  now :: "event list \<Rightarrow> string"
  trace :: "event list"
  cache :: "string \<Rightarrow> dict list"
  customers :: "dict list"
  stacks :: "dict list"
  sannav :: "sannav_record list"
  activezone_object_id_table_dict_list :: "string list list"
  set_order :: "pyval list \<Rightarrow> pyval list"

definition cursor_execute :: "string \<Rightarrow> world \<Rightarrow> (exn + unit) \<times> world" where
  "cursor_execute statement w =
     ((case raises w (trace w) (Execute statement) of None \<Rightarrow> Inr () | Some e \<Rightarrow> Inl e),
      w\<lparr>trace := trace w @ [Execute statement]\<rparr>)"

definition conn_commit :: "world \<Rightarrow> (exn + unit) \<times> world" where
  "conn_commit w =
     ((case raises w (trace w) Commit of None \<Rightarrow> Inr () | Some e \<Rightarrow> Inl e),
      w\<lparr>trace := trace w @ [Commit]\<rparr>)"

text \<open>\<^verbatim>\<open>cursor.execute(statement); conn.commit()\<close>: the commit runs when the execute returned.\<close>

definition execute_commit :: "string \<Rightarrow> world \<Rightarrow> (exn + unit) \<times> world" where
  "execute_commit statement w =
     (case cursor_execute statement w of
        (Inl e, w1) \<Rightarrow> (Inl e, w1)
      | (Inr u, w1) \<Rightarrow> conn_commit w1)"

text \<open>
  \<^verbatim>\<open>try: ... except ResourceWarning: print(...)\<close>: only this exception is caught; the
  block then counts as done. Every other exception goes on to the caller.
\<close>

definition except_ResourceWarning :: "(exn + unit) \<times> world \<Rightarrow> (exn + unit) \<times> world" where
  "except_ResourceWarning r =
     (case r of
        (Inl ResourceWarning, w) \<Rightarrow> (Inr (), w)
      | (Inl e, w) \<Rightarrow> (Inl e, w)
      | (Inr u, w) \<Rightarrow> (Inr u, w))"

section \<open>The single-row insert\<close>

text \<open>
  \<^verbatim>\<open>insert_data_to_table\<close>, lines 687 to 696: the loop over the record's columns. It
  skips \<^verbatim>\<open>datecreated\<close> and \<^verbatim>\<open>ID\<close>, writes the escaped value back into the record and
  collects the bracketed column and the quoted value.
\<close>

fun insert_columns_loop ::
  "string list \<Rightarrow> dict \<times> string list \<times> string list \<Rightarrow> exn + (dict \<times> string list \<times> string list)"
where
  "insert_columns_loop [] acc = Inr acc"
| "insert_columns_loop (column # columns_list) (record_dict, column_insert, value_insert) =
     (if column \<noteq> ''datecreated'' \<and> column \<noteq> ''ID'' then
        (case dict_get record_dict column of
           None \<Rightarrow> Inl KeyError
         | Some v \<Rightarrow>
            (case py_in sq v of
               Inl e \<Rightarrow> Inl e
             | Inr has_quote \<Rightarrow>
                (let record_dict1 =
                       (if has_quote then dict_set column (py_replace_sq v) record_dict
                        else record_dict)
                 in case dict_get record_dict1 column of
                      None \<Rightarrow> Inl KeyError
                    | Some v1 \<Rightarrow>
                        insert_columns_loop columns_list
                          (record_dict1,
                           column_insert @ [''['' @ column @ '']''],
                           value_insert @ [sq @ py_str v1 @ sq]))))
      else insert_columns_loop columns_list (record_dict, column_insert, value_insert))"

definition insert_statement :: "string \<Rightarrow> string list \<Rightarrow> string list \<Rightarrow> string" where
  "insert_statement table_name column_insert value_insert =
     ''INSERT INTO [dbo].['' @ table_name @ ''] ('' @ join '','' column_insert
       @ '') VALUES('' @ join '','' value_insert @ '')''"

text \<open>
  The function returns nothing; the record it was given is left with the escaped values.
  The callers do not read the record again, so the model returns only the world.
\<close>

definition insert_data_to_table :: "string \<Rightarrow> dict \<Rightarrow> world \<Rightarrow> (exn + unit) \<times> world" where
  "insert_data_to_table table_name record_dict w =
     (case insert_columns_loop (keys record_dict) (record_dict, [], []) of
        Inl e \<Rightarrow> (Inl e, w)
      | Inr (record_dict1, column_insert, value_insert) \<Rightarrow>
          except_ResourceWarning
            (execute_commit (insert_statement table_name column_insert value_insert) w))"

section \<open>The batched insert\<close>

text \<open>
  A record list may hold exception objects: \<^verbatim>\<open>asyncio.gather\<close> is called with
  \<^verbatim>\<open>return_exceptions = True\<close> and its result list goes to the batched insert as it is.
  Subscripting an exception object raises a \<^verbatim>\<open>TypeError\<close>, asking it for its keys an
  \<^verbatim>\<open>AttributeError\<close>.
\<close>

type_synonym gathered = "exn + dict"

text \<open>Lines 744 to 746: the bracketed columns of the first record.\<close>

definition batch_column_insert :: "string list \<Rightarrow> string list" where
  "batch_column_insert columns_list =
     map (\<lambda>column. ''['' @ column @ '']'')
       (filter (\<lambda>column. column \<noteq> ''datecreated'' \<and> column \<noteq> ''ID'') columns_list)"

definition batch_header :: "string \<Rightarrow> string list \<Rightarrow> string" where
  "batch_header table_name columns_list =
     ''INSERT INTO [dbo].['' @ table_name @ ''] ('' @ join '','' (batch_column_insert columns_list)
       @ '') VALUES'' @ crlf"

text \<open>Lines 764 to 769: the quoted values of one entry; the value is written as it is.\<close>

fun batch_value_insert :: "string list \<Rightarrow> gathered \<Rightarrow> exn + string list" where
  "batch_value_insert [] entry = Inr []"
| "batch_value_insert (column # columns_list) entry =
     (if column \<noteq> ''datecreated'' \<and> column \<noteq> ''ID'' then
        (case entry of
           Inl exception_object \<Rightarrow> Inl TypeError
         | Inr d \<Rightarrow>
            (case dict_get d column of
               None \<Rightarrow> Inl KeyError
             | Some v \<Rightarrow>
                (case batch_value_insert columns_list entry of
                   Inl e \<Rightarrow> Inl e
                 | Inr value_insert \<Rightarrow> Inr ((sq @ py_str v @ sq) # value_insert))))
      else batch_value_insert columns_list entry)"

text \<open>\<^verbatim>\<open>insert_stement_block[:-3]\<close> drops the comma and the line end after the last row.\<close>

definition flush :: "string \<Rightarrow> world \<Rightarrow> (exn + unit) \<times> world" where
  "flush insert_stement_block w =
     except_ResourceWarning (execute_commit (slice_to insert_stement_block (- 3)) w)"

text \<open>
  Lines 759 to 786: the loop over the entries, with the statement under construction and
  the count of its rows.
\<close>

fun batch_loop ::
  "string \<Rightarrow> string list \<Rightarrow> nat \<Rightarrow> gathered list \<Rightarrow> string \<Rightarrow> nat \<Rightarrow> world
     \<Rightarrow> (exn + string \<times> nat) \<times> world"
where
  "batch_loop table_name columns_list tranaction_block_size [] insert_stement_block count w =
     (Inr (insert_stement_block, count), w)"
| "batch_loop table_name columns_list tranaction_block_size (entry # record_list)
      insert_stement_block count w =
     (case batch_value_insert columns_list entry of
        Inl e \<Rightarrow> (Inl e, w)
      | Inr value_insert \<Rightarrow>
         (let block1 = insert_stement_block @ ''('' @ join '','' value_insert @ ''),'' @ crlf;
              count1 = count + 1
          in if tranaction_block_size = 0 then (Inl ZeroDivisionError, w)
             else if count1 mod tranaction_block_size = 0 \<and> count1 \<noteq> 0 then
               (case flush block1 w of
                  (Inl e, w1) \<Rightarrow> (Inl e, w1)
                | (Inr u, w1) \<Rightarrow>
                    batch_loop table_name columns_list tranaction_block_size record_list
                      (batch_header table_name columns_list) 0 w1)
             else
               batch_loop table_name columns_list tranaction_block_size record_list
                 block1 count1 w))"

definition insert_data_to_table_batch ::
  "string \<Rightarrow> gathered list \<Rightarrow> nat \<Rightarrow> world \<Rightarrow> (exn + unit) \<times> world"
where
  "insert_data_to_table_batch table_name record_list tranaction_block_size w =
     (case record_list of
        [] \<Rightarrow> (Inl IndexError, w)
      | Inl exception_object # rest \<Rightarrow> (Inl AttributeError, w)
      | Inr first_record # rest \<Rightarrow>
         (let columns_list = keys first_record in
          case batch_loop table_name columns_list tranaction_block_size record_list
                 (batch_header table_name columns_list) 0 w of
            (Inl e, w1) \<Rightarrow> (Inl e, w1)
          | (Inr (insert_stement_block, count), w1) \<Rightarrow>
              if count > 0 then flush insert_stement_block w1 else (Inr (), w1)))"

section \<open>Formatting a customer\<close>

definition dict_item :: "dict \<Rightarrow> string \<Rightarrow> exn + pyval" where
  "dict_item d k = (case dict_get d k of None \<Rightarrow> Inl KeyError | Some v \<Rightarrow> Inr v)"

definition ex_bind :: "exn + 'a \<Rightarrow> ('a \<Rightarrow> exn + 'b) \<Rightarrow> exn + 'b" where
  "ex_bind r f = (case r of Inl e \<Rightarrow> Inl e | Inr x \<Rightarrow> f x)"

text \<open>\<^verbatim>\<open>__format_customer_insert_data\<close>, lines 186 to 205.\<close>

definition format_customer_insert_data :: "dict \<Rightarrow> gathered" where
  "format_customer_insert_data customer =
     ex_bind (dict_item customer ''L'') (\<lambda>live.
     let status = (if live = PStr ''Y'' then ''1'' else ''0'') in
     ex_bind (dict_item customer ''NAME'') (\<lambda>name.
     ex_bind (py_in sq name) (\<lambda>has_quote.
     let customer_name = (if has_quote then py_replace_sq name else name) in
     ex_bind (dict_item customer ''ID'') (\<lambda>contextid.
     ex_bind (dict_item customer ''STACKNUMBER'') (\<lambda>stackid.
     Inr [(''contextid'', contextid),
          (''customer'', customer_name),
          (''status'', PStr status),
          (''stackid'', stackid)])))))"

text \<open>
  \<^verbatim>\<open>__customer_lookup_async\<close>: the coroutines never suspend, so \<^verbatim>\<open>asyncio.gather\<close> runs
  them in the order of the list and returns each result, or the exception it raised.
\<close>

definition customer_lookup_async :: "world \<Rightarrow> gathered list" where
  "customer_lookup_async w = map format_customer_insert_data (customers w)"

section \<open>Formatting a switchport record\<close>

text \<open>Lines 243 to 249: the entity type from the connected device type.\<close>

definition classify_entitytype :: "dict \<Rightarrow> exn + dict" where
  "classify_entitytype sannav_object =
     ex_bind (dict_item sannav_object ''connectedDeviceType'') (\<lambda>t.
       if py_truthy t then
         (if t = PStr ''Initiator'' then
            Inr (dict_set ''entitytype'' (PStr ''device'') sannav_object)
          else if t = PStr ''SWITCH'' then
            Inr (dict_set ''entitytype'' (PStr ''chassis'') sannav_object)
          else
            ex_bind (py_in ''Target'' t) (\<lambda>is_target.
              Inr (if is_target then dict_set ''entitytype'' (PStr ''storage'') sannav_object
                   else sannav_object)))
       else Inr sannav_object)"

text \<open>Lines 251 to 262: the device name, \<^verbatim>\<open>'none'\<close> unless a branch assigns it.\<close>

fun resolve_device :: "dict \<Rightarrow> pyval" where
  "resolve_device sannav_object =
     (if ''remoteDevice'' \<in> set (keys sannav_object) \<and> ''remotePort'' \<in> set (keys sannav_object) then
        (if the (dict_get sannav_object ''remoteDevice'') \<noteq> PStr []
            \<or> the (dict_get sannav_object ''remoteDevice'') \<noteq> PStr ''localhost''
         then the (dict_get sannav_object ''remoteDevice'')
         else the (dict_get sannav_object ''remotePort''))
      else if ''remoteDevice'' \<in> set (keys sannav_object)
              \<and> the (dict_get sannav_object ''remoteDevice'') \<noteq> PStr [] then
        the (dict_get sannav_object ''remoteDevice'')
      else if ''remotePort'' \<in> set (keys sannav_object)
              \<and> the (dict_get sannav_object ''remotePort'') \<noteq> PStr [] then
        (if the (dict_get sannav_object ''remotePort'') \<noteq> PStr []
         then the (dict_get sannav_object ''remotePort'')
         else PStr ''none'')
      else PStr ''none'')"

declare resolve_device.simps [simp del]

text \<open>Lines 264 to 266: \<^verbatim>\<open>device[:trunk_count]\<close> with \<^verbatim>\<open>trunk_count = -abs(len(device) - 50)\<close>.\<close>

definition truncate_device :: "pyval \<Rightarrow> exn + pyval" where
  "truncate_device device =
     ex_bind (py_len device) (\<lambda>n.
       if n > 50 then py_slice_to device (- \<bar>int n - 50\<bar>) else Inr device)"

text \<open>Lines 269 to 271.\<close>

definition default_remoteNodeWwn :: "dict \<Rightarrow> exn + dict" where
  "default_remoteNodeWwn sannav_object =
     ex_bind (dict_item sannav_object ''remoteNodeWwn'') (\<lambda>wwn.
       Inr (if wwn = PStr [] then dict_set ''remoteNodeWwn'' (PStr ''none'') sannav_object
            else sannav_object))"

text \<open>Lines 275 to 283: the columns that need no lookup.\<close>

definition sannaventity_base :: "string \<Rightarrow> dict \<Rightarrow> pyval \<Rightarrow> exn + dict" where
  "sannaventity_base runid sannav_object device =
     ex_bind (dict_item sannav_object ''id'') (\<lambda>ident.
     ex_bind (dict_item sannav_object ''wwn'') (\<lambda>wwn.
     ex_bind (dict_item sannav_object ''portNumber'') (\<lambda>portNumber.
     ex_bind (dict_item sannav_object ''slotNumber'') (\<lambda>slotNumber.
     ex_bind (dict_item sannav_object ''remoteNodeWwn'') (\<lambda>remoteNodeWwn.
     ex_bind (dict_item sannav_object ''ipAddress'') (\<lambda>ipAddress.
     Inr [(''runid'', PStr runid),
          (''id'', PStr (py_str ident)),
          (''wwn'', wwn),
          (''portnumber'', PStr (py_str portNumber)),
          (''slotnumber'', PStr (py_str slotNumber)),
          (''remotewwn'', remoteNodeWwn),
          (''ipaddress'', ipAddress),
          (''devicename'', device)]))))))"

text \<open>
  The list comprehension \<^verbatim>\<open>[item for item in rows if item[key] == wanted]\<close>. The
  condition is evaluated once per row, left operand first; \<open>wanted\<close> is \<open>None\<close> when its
  own subscript has no such key. Over no rows nothing is evaluated.
\<close>

fun search_rows :: "dict list \<Rightarrow> string \<Rightarrow> pyval option \<Rightarrow> exn + dict list" where
  "search_rows [] key wanted = Inr []"
| "search_rows (item # rows) key wanted =
     (case dict_get item key of
        None \<Rightarrow> Inl KeyError
      | Some v \<Rightarrow>
         (case wanted of
            None \<Rightarrow> Inl KeyError
          | Some x \<Rightarrow>
             (case search_rows rows key wanted of
                Inl e \<Rightarrow> Inl e
              | Inr found \<Rightarrow> Inr (if v = x then item # found else found))))"

text \<open>\<^verbatim>\<open>found[0]['ID']\<close>.\<close>

definition first_ID :: "dict list \<Rightarrow> exn + pyval" where
  "first_ID found = (case found of [] \<Rightarrow> Inl IndexError | item # rest \<Rightarrow> dict_item item ''ID'')"

definition sannav_common_id_tables :: "string list" where
  "sannav_common_id_tables = [''entitytype'', ''fabric'', ''health'', ''status'', ''switch'', ''zone'']"

definition source_label :: "string \<Rightarrow> string" where
  "source_label sannav_id_table =
     (if sannav_id_table = ''switch'' \<or> sannav_id_table = ''fabric'' then sannav_id_table @ ''Name''
      else if sannav_id_table = ''zone'' then sannav_id_table
      else sannav_id_table)"

text \<open>Lines 287 to 306: one identifier column per reference table, read from the cache.\<close>

fun id_tables_loop :: "string list \<Rightarrow> (string \<Rightarrow> dict list) \<Rightarrow> dict \<Rightarrow> dict \<Rightarrow> exn + dict" where
  "id_tables_loop [] tables_cache sannav_object formatted = Inr formatted"
| "id_tables_loop (sannav_id_table # rest) tables_cache sannav_object formatted =
     ex_bind (search_rows (tables_cache sannav_id_table) ''name''
                (dict_get sannav_object (source_label sannav_id_table))) (\<lambda>search_id_table.
     ex_bind (first_ID search_id_table) (\<lambda>search_id.
       id_tables_loop rest tables_cache sannav_object
         (dict_set (source_label sannav_id_table @ ''id'') (PStr (py_str search_id)) formatted)))"

text \<open>Lines 309 to 325: one membership row per active zone of the record.\<close>

fun activezones_loop :: "string list \<Rightarrow> dict list \<Rightarrow> string \<Rightarrow> pyval \<Rightarrow> exn + dict list" where
  "activezones_loop [] zone_cache runid entity_id = Inr []"
| "activezones_loop (zone_name # rest) zone_cache runid entity_id =
     ex_bind (search_rows zone_cache ''name'' (Some (PStr zone_name))) (\<lambda>zone_id_table.
     ex_bind (first_ID zone_id_table) (\<lambda>zone_id.
     ex_bind (activezones_loop rest zone_cache runid entity_id) (\<lambda>activezones_results.
       Inr ([(''runid'', PStr runid),
             (''sannaventityid'', entity_id),
             (''zoneid'', PStr (py_str zone_id))] # activezones_results))))"

text \<open>
  \<^verbatim>\<open>__format_sannav_insert_data\<close>. The record is changed in place (its entity type and
  its remote node name), also when a later step raises, so it is returned beside the result.
\<close>

definition format_sannav_insert_data ::
  "(string \<Rightarrow> dict list) \<Rightarrow> sannav_record \<Rightarrow> string \<Rightarrow> (exn + dict \<times> dict list) \<times> sannav_record"
where
  "format_sannav_insert_data tables_cache sannav_object runid =
     (case classify_entitytype (entries sannav_object) of
        Inl e \<Rightarrow> (Inl e, sannav_object)
      | Inr entries1 \<Rightarrow>
         (case truncate_device (resolve_device entries1) of
            Inl e \<Rightarrow> (Inl e, sannav_object\<lparr>entries := entries1\<rparr>)
          | Inr device \<Rightarrow>
             (case default_remoteNodeWwn entries1 of
                Inl e \<Rightarrow> (Inl e, sannav_object\<lparr>entries := entries1\<rparr>)
              | Inr entries2 \<Rightarrow>
                 (ex_bind (sannaventity_base runid entries2 device) (\<lambda>base.
                  ex_bind (id_tables_loop sannav_common_id_tables tables_cache entries2 base)
                    (\<lambda>sannaventity_data_formatted.
                  ex_bind (case activeZones sannav_object of
                             None \<Rightarrow> Inl KeyError | Some zones \<Rightarrow> Inr zones) (\<lambda>zones.
                  ex_bind (dict_item sannaventity_data_formatted ''id'') (\<lambda>entity_id.
                  ex_bind (activezones_loop zones (tables_cache ''zone'') runid entity_id)
                    (\<lambda>activezones_results.
                    Inr (sannaventity_data_formatted, activezones_results)))))),
                  sannav_object\<lparr>entries := entries2\<rparr>))))"

section \<open>Clearing, reading and updating tables\<close>

abbreviation (input) dq :: string where
  "dq \<equiv> [CHR 0x22]"

text \<open>One statement after another: the second runs when the first returned.\<close>

definition then_do ::
  "(exn + unit) \<times> world \<Rightarrow> (world \<Rightarrow> (exn + 'a) \<times> world) \<Rightarrow> (exn + 'a) \<times> world"
where
  "then_do r f = (case r of (Inl e, w) \<Rightarrow> (Inl e, w) | (Inr u, w) \<Rightarrow> f w)"

text \<open>\<^verbatim>\<open>__clear_table\<close>, lines 76 to 90: \<^verbatim>\<open>False\<close> when the store raised a \<^verbatim>\<open>ResourceWarning\<close>.\<close>

definition clear_table :: "string \<Rightarrow> world \<Rightarrow> (exn + bool) \<times> world" where
  "clear_table table w =
     (case execute_commit (''TRUNCATE TABLE [dbo].['' @ table @ '']'') w of
        (Inl ResourceWarning, w1) \<Rightarrow> (Inr False, w1)
      | (Inl e, w1) \<Rightarrow> (Inl e, w1)
      | (Inr u, w1) \<Rightarrow> (Inr True, w1))"

text \<open>
  Lines 528 to 532. The suffix for \<^verbatim>\<open>activezones\<close> is a plain string, not an f-string, so
  its braces are sent as they stand.
\<close>

definition select_query :: "string \<Rightarrow> string" where
  "select_query table_name =
     (if table_name \<noteq> ''activezones'' then
        ''SELECT * FROM [storagetooling].[dbo].['' @ table_name @ '']''
      else
        ''SELECT * FROM [storagetooling].[dbo].['' @ table_name @ ''] ''
          @ ''WHERE RunId = '' @ sq
          @ ''{(storagetooling_tables_cache.run[(len(storagetooling_tables_cache.run)-1)])[''
          @ sq @ ''ID'' @ sq @ '']}'' @ sq)"

text \<open>
  \<^verbatim>\<open>__read_sql_tables_to_cache\<close>, lines 525 to 549. When the query raises a
  \<^verbatim>\<open>ResourceWarning\<close> the handler only prints, and the loop over the result then finds
  its variable unbound.
\<close>

definition read_sql_tables_to_cache :: "string \<Rightarrow> world \<Rightarrow> (exn + unit) \<times> world" where
  "read_sql_tables_to_cache table_name w =
     (case cursor_execute (select_query table_name) w of
        (Inl ResourceWarning, w1) \<Rightarrow> (Inl UnboundLocalError, w1)
      | (Inl e, w1) \<Rightarrow> (Inl e, w1)
      | (Inr u, w1) \<Rightarrow>
          (Inr (),
           w1\<lparr>cache := (cache w1)(table_name := answers w (trace w) (select_query table_name))\<rparr>))"

text \<open>\<^verbatim>\<open>__update_source_refresh_timestamp\<close>, lines 566 to 578.\<close>

definition update_source_refresh_timestamp :: "string \<Rightarrow> world \<Rightarrow> (exn + unit) \<times> world" where
  "update_source_refresh_timestamp data_label w =
     except_ResourceWarning
       (execute_commit
          (''UPDATE [dbo].[UpdateTracking] SET ['' @ data_label @ ''] = '' @ dq
             @ now w (trace w) @ dq) w)"

text \<open>\<^verbatim>\<open>update_data_table\<close>, lines 861 to 878.\<close>

definition update_statement :: "string \<Rightarrow> dict \<Rightarrow> string \<Rightarrow> string" where
  "update_statement table_name updates where_clause =
     ''UPDATE [dbo].['' @ table_name @ '']'' @ crlf @ ''SET ''
       @ join '',''
           (map (\<lambda>column. ''['' @ column @ ''] = '' @ sq
                            @ py_str (the (dict_get updates column)) @ sq @ crlf)
              (keys updates))
       @ ''WHERE '' @ where_clause"

definition update_data_table :: "string \<Rightarrow> dict \<Rightarrow> string \<Rightarrow> world \<Rightarrow> (exn + unit) \<times> world" where
  "update_data_table table_name updates where_clause w =
     except_ResourceWarning (execute_commit (update_statement table_name updates where_clause) w)"

section \<open>The customer family\<close>

text \<open>\<^verbatim>\<open>update_customer_data\<close>, lines 814 to 841.\<close>

definition update_customer_data :: "world \<Rightarrow> (exn + unit) \<times> world" where
  "update_customer_data w =
     (let results = customer_lookup_async w in
      case clear_table ''customers'' w of
        (Inl e, w1) \<Rightarrow> (Inl e, w1)
      | (Inr delete_status_customer, w1) \<Rightarrow>
          if \<not> delete_status_customer then
            (Inl (SystemExit ''No update to customers table due to table clear failure.''), w1)
          else if length results > 0 then
            then_do
              (except_ResourceWarning
                 (then_do (insert_data_to_table_batch ''customers'' results 250 w1)
                    (read_sql_tables_to_cache ''customers'')))
              (\<lambda>w2. except_ResourceWarning (update_source_refresh_timestamp ''customers'' w2))
          else (Inr (), w1))"

section \<open>The stack family\<close>

text \<open>Lines 915 to 920.\<close>

definition stacks_data_formatted :: "dict \<Rightarrow> exn + dict" where
  "stacks_data_formatted record =
     ex_bind (dict_item record ''stack'') (\<lambda>stack.
     ex_bind (dict_item record ''local_location'') (\<lambda>local_location.
     ex_bind (dict_item record ''prod_location'') (\<lambda>prod_location.
     ex_bind (dict_item record ''remote_location'') (\<lambda>remote_location.
     Inr [(''Stack'', PStr (py_str stack)),
          (''locallocation'', local_location),
          (''prodlocation'', prod_location),
          (''remotelocation'', remote_location)]))))"

text \<open>Lines 944 to 954: one comparison per column; a column that differs joins the update.\<close>

fun stacks_columns_update :: "string list \<Rightarrow> dict \<Rightarrow> dict \<Rightarrow> dict \<Rightarrow> exn + dict" where
  "stacks_columns_update [] formatted table_entry updates = Inr updates"
| "stacks_columns_update (column # columns) formatted table_entry updates =
     ex_bind (dict_item formatted column) (\<lambda>incoming.
     ex_bind (dict_item table_entry column) (\<lambda>cached.
       stacks_columns_update columns formatted table_entry
         (if incoming \<noteq> cached then dict_set column incoming updates else updates)))"

definition stack_columns :: "string list" where
  "stack_columns = [''locallocation'', ''prodlocation'', ''remotelocation'']"

text \<open>Lines 914 to 964: the stack of one record, inserted, updated or left alone.\<close>

definition update_stack_record :: "dict \<Rightarrow> world \<Rightarrow> (exn + unit) \<times> world" where
  "update_stack_record record w =
     (case stacks_data_formatted record of
        Inl e \<Rightarrow> (Inl e, w)
      | Inr formatted \<Rightarrow>
         (case search_rows (cache w ''stacks'') ''Stack'' (dict_get record ''stack'') of
            Inl e \<Rightarrow> (Inl e, w)
          | Inr search_stack_table \<Rightarrow>
             (case search_stack_table of
                [] \<Rightarrow>
                  except_ResourceWarning
                    (then_do (insert_data_to_table ''stacks'' formatted w)
                       (read_sql_tables_to_cache ''stacks''))
              | table_entry # others \<Rightarrow>
                 (case stacks_columns_update stack_columns formatted table_entry [] of
                    Inl e \<Rightarrow> (Inl e, w)
                  | Inr updates \<Rightarrow>
                     (case dict_item record ''stack'' of
                        Inl e \<Rightarrow> (Inl e, w)
                      | Inr stack \<Rightarrow>
                          if updates \<noteq> [] then
                            update_data_table ''stacks'' updates
                              (''stack = '' @ sq @ py_str stack @ sq) w
                          else (Inr (), w))))))"

text \<open>\<^verbatim>\<open>s.split(',')\<close>.\<close>

fun split_on :: "char \<Rightarrow> string \<Rightarrow> string list" where
  "split_on sep [] = [[]]"
| "split_on sep (c # cs) =
     (if c = sep then [] # split_on sep cs
      else (case split_on sep cs of
              piece # pieces \<Rightarrow> (c # piece) # pieces
            | [] \<Rightarrow> [[c]]))"

fun py_split_comma :: "pyval \<Rightarrow> exn + string list" where
  "py_split_comma (PStr s) = Inr (split_on CHR '','' s)"
| "py_split_comma (PInt i) = Inl AttributeError"
| "py_split_comma PNone = Inl AttributeError"

text \<open>Lines 1013 to 1032: the webs of one webpool, each inserted when the cache has no such name.\<close>

fun webs_loop :: "string list \<Rightarrow> string \<Rightarrow> world \<Rightarrow> (exn + unit) \<times> world" where
  "webs_loop [] webpoolid w = (Inr (), w)"
| "webs_loop (web # webs_list) webpoolid w =
     (case search_rows (cache w ''webs'') ''name'' (Some (PStr web)) of
        Inl e \<Rightarrow> (Inl e, w)
      | Inr search_webs_table \<Rightarrow>
          if search_webs_table = [] then
            then_do
              (except_ResourceWarning
                 (insert_data_to_table ''webs''
                    [(''name'', PStr web), (''webpoolid'', PStr webpoolid)] w))
              (webs_loop webs_list webpoolid)
          else webs_loop webs_list webpoolid w)"

text \<open>
  Lines 970 to 1006: the identifier of the webpool of one location, from the cache or, for
  a name the cache lacks, from the cache read again after the insert.
\<close>

definition resolve_webpoolid :: "dict \<Rightarrow> string \<Rightarrow> world \<Rightarrow> (exn + string) \<times> world" where
  "resolve_webpoolid record location w =
     (case ex_bind (dict_item record (location @ ''_webpool_name'')) (\<lambda>name.
           ex_bind (dict_item record ''stack'') (\<lambda>stack.
           Inr [(''name'', name), (''stackid'', PStr (py_str stack))])) of
        Inl e \<Rightarrow> (Inl e, w)
      | Inr webpools_data_formatted \<Rightarrow>
         (case search_rows (cache w ''webpools'') ''name''
                 (dict_get record (location @ ''_webpool_name'')) of
            Inl e \<Rightarrow> (Inl e, w)
          | Inr search_webpools_table \<Rightarrow>
              if search_webpools_table \<noteq> [] then
                (ex_bind (first_ID search_webpools_table) (\<lambda>i. Inr (py_str i)), w)
              else
                (case except_ResourceWarning
                        (then_do (insert_data_to_table ''webpools'' webpools_data_formatted w)
                           (read_sql_tables_to_cache ''webpools'')) of
                   (Inl e, w1) \<Rightarrow> (Inl e, w1)
                 | (Inr u, w1) \<Rightarrow>
                     (ex_bind (search_rows (cache w1 ''webpools'') ''name''
                                 (dict_get record (location @ ''_webpool_name'')))
                        (\<lambda>found. ex_bind (first_ID found) (\<lambda>i. Inr (py_str i))), w1))))"

text \<open>Lines 970 to 1035: the webpool of one location and its webs.\<close>

definition update_webpool_location :: "dict \<Rightarrow> string \<Rightarrow> world \<Rightarrow> (exn + unit) \<times> world" where
  "update_webpool_location record location w =
     (case resolve_webpoolid record location w of
        (Inl e, w1) \<Rightarrow> (Inl e, w1)
      | (Inr webpoolid, w1) \<Rightarrow>
         (case ex_bind (dict_item record (location @ ''_webpool'')) py_split_comma of
            Inl e \<Rightarrow> (Inl e, w1)
          | Inr webs_list \<Rightarrow>
              then_do (webs_loop webs_list webpoolid w1) (read_sql_tables_to_cache ''webs'')))"

text \<open>Lines 896 to 1048: one record, its stack and then its two webpools.\<close>

definition update_stack_entry :: "dict \<Rightarrow> world \<Rightarrow> (exn + unit) \<times> world" where
  "update_stack_entry record w =
     then_do (update_stack_record record w) (\<lambda>w1.
     then_do (update_webpool_location record ''prod'' w1)
       (update_webpool_location record ''remote''))"

fun update_stack_loop :: "dict list \<Rightarrow> world \<Rightarrow> (exn + unit) \<times> world" where
  "update_stack_loop [] w = (Inr (), w)"
| "update_stack_loop (record # records) w =
     then_do (update_stack_entry record w) (update_stack_loop records)"

text \<open>\<^verbatim>\<open>update_stack_data\<close>; the debug log is left out.\<close>

definition update_stack_data :: "world \<Rightarrow> (exn + unit) \<times> world" where
  "update_stack_data w =
     then_do (update_stack_loop (stacks w) w)
       (\<lambda>w1. except_ResourceWarning (update_source_refresh_timestamp ''stacks'' w1))"

section \<open>The SAN fabric family\<close>

text \<open>Lines 1098 to 1106: attributes a record may lack.\<close>

definition fill_defaults :: "sannav_record \<Rightarrow> sannav_record" where
  "fill_defaults item =
     (let e1 = (if ''zoneAlias'' \<notin> set (keys (entries item))
                then dict_set ''zoneAlias'' (PStr ''none'') (entries item) else entries item);
          e2 = (if ''entitytype'' \<notin> set (keys e1)
                then dict_set ''entitytype'' (PStr ''none'') e1 else e1);
          zones = (case activeZones item of None \<Rightarrow> Some [''none''] | Some zs \<Rightarrow> Some zs);
          e3 = (if ''remoteNodeWwn'' \<notin> set (keys e2)
                then dict_set ''remoteNodeWwn'' (PStr ''none'') e2 else e2)
      in item\<lparr>entries := e3, activeZones := zones\<rparr>)"

definition update_sannav_tables :: "string list" where
  "update_sannav_tables = [''activeZones'', ''fabric'', ''health'', ''status'', ''switch'', ''zone'']"

text \<open>Lines 1112 to 1117.\<close>

definition id_table_source :: "string \<Rightarrow> string" where
  "id_table_source table =
     (if table = ''switch'' \<or> table = ''fabric'' then table @ ''Name''
      else if table = ''zone'' then table @ ''Alias''
      else table)"

text \<open>\<^verbatim>\<open>map(itemgetter(source), records)\<close>.\<close>

fun map_itemgetter :: "string \<Rightarrow> sannav_record list \<Rightarrow> exn + pyval list" where
  "map_itemgetter source [] = Inr []"
| "map_itemgetter source (item # items) =
     ex_bind (dict_item (entries item) source) (\<lambda>v.
     ex_bind (map_itemgetter source items) (\<lambda>vs. Inr (v # vs)))"

text \<open>Lines 1123 to 1132 and 1145 to 1154: a name the cache lacks is inserted.\<close>

fun insert_missing_names :: "string \<Rightarrow> pyval list \<Rightarrow> world \<Rightarrow> (exn + unit) \<times> world" where
  "insert_missing_names table [] w = (Inr (), w)"
| "insert_missing_names table (record # unique_source_values) w =
     (case search_rows (cache w table) ''name'' (Some record) of
        Inl e \<Rightarrow> (Inl e, w)
      | Inr search_table \<Rightarrow>
          if search_table = [] then
            then_do (insert_data_to_table table [(''name'', record)] w)
              (insert_missing_names table unique_source_values)
          else insert_missing_names table unique_source_values w)"

text \<open>Lines 1110 to 1156: one reference table, then its cache is read again.\<close>

definition sync_id_table :: "string \<Rightarrow> world \<Rightarrow> (exn + unit) \<times> world" where
  "sync_id_table table w =
     (if table \<noteq> ''activeZones'' then
        (case map_itemgetter (id_table_source table) (sannav w) of
           Inl e \<Rightarrow> (Inl e, w)
         | Inr source_values \<Rightarrow>
             then_do (insert_missing_names table (set_order w source_values) w)
               (read_sql_tables_to_cache table))
      else
        (let w1 = w\<lparr>activezone_object_id_table_dict_list :=
                      activezone_object_id_table_dict_list w
                        @ concat (map (\<lambda>record. case activeZones record of
                                                   None \<Rightarrow> [] | Some zones \<Rightarrow> [zones])
                                    (sannav w))\<rparr>
         in then_do
              (insert_missing_names ''zone''
                 (set_order w1 (map PStr (concat (activezone_object_id_table_dict_list w1)))) w1)
              (read_sql_tables_to_cache ''zone'')))"

fun sync_id_tables :: "string list \<Rightarrow> world \<Rightarrow> (exn + unit) \<times> world" where
  "sync_id_tables [] w = (Inr (), w)"
| "sync_id_tables (table # tables) w = then_do (sync_id_table table w) (sync_id_tables tables)"

text \<open>\<^verbatim>\<open>__get_runid\<close>, lines 383 to 414.\<close>

definition runid_query :: "string \<Rightarrow> string" where
  "runid_query formatted_datetime =
     ''SELECT [ID] FROM [storagetooling] +        .[dbo].[RUN] WHERE capturedatetime Like ''
       @ dq @ formatted_datetime @ ''%'' @ dq"

definition get_runid :: "world \<Rightarrow> (exn + dict list) \<times> world" where
  "get_runid w =
     (let formatted_datetime = now w (trace w) in
      case insert_data_to_table ''run'' [(''capturedatetime'', PStr formatted_datetime)] w of
        (Inl ResourceWarning, w1) \<Rightarrow> (Inl (SystemExit []), w1)
      | (Inl e, w1) \<Rightarrow> (Inl e, w1)
      | (Inr u, w1) \<Rightarrow>
         (case cursor_execute (runid_query formatted_datetime) w1 of
            (Inl ResourceWarning, w2) \<Rightarrow> (Inl (SystemExit []), w2)
          | (Inl e, w2) \<Rightarrow> (Inl e, w2)
          | (Inr u2, w2) \<Rightarrow>
              (Inr (answers w1 (trace w1) (runid_query formatted_datetime)), w2)))"

text \<open>
  \<^verbatim>\<open>__sannav_lookup_async\<close>: as for the customers, the records are formatted in their
  order, each against the cache as it stands, and every record keeps what the formatter
  changed in it.
\<close>

definition sannav_lookup_async :: "string \<Rightarrow> world \<Rightarrow> (exn + dict \<times> dict list) list \<times> world" where
  "sannav_lookup_async runid w =
     (let formatted = map (\<lambda>sannav_object. format_sannav_insert_data (cache w) sannav_object runid)
                        (sannav w)
      in (map fst formatted, w\<lparr>sannav := map snd formatted\<rparr>))"

text \<open>Lines 1171 to 1186: \<^verbatim>\<open>d['sannav']\<close> on an exception object raises.\<close>

fun sannav_of_results :: "(exn + dict \<times> dict list) list \<Rightarrow> exn + dict list" where
  "sannav_of_results [] = Inr []"
| "sannav_of_results (Inl exception_object # results) = Inl TypeError"
| "sannav_of_results (Inr (row, zones) # results) =
     ex_bind (sannav_of_results results) (\<lambda>rows. Inr (row # rows))"

fun activezones_of_results :: "(exn + dict \<times> dict list) list \<Rightarrow> dict list" where
  "activezones_of_results [] = []"
| "activezones_of_results (Inl exception_object # results) = activezones_of_results results"
| "activezones_of_results (Inr (row, zones) # results) = zones @ activezones_of_results results"

text \<open>\<^verbatim>\<open>update_sannav_data\<close>; the timing and the debug log are left out.\<close>

definition update_sannav_data :: "world \<Rightarrow> (exn + unit) \<times> world" where
  "update_sannav_data w =
     then_do (sync_id_tables update_sannav_tables (w\<lparr>sannav := map fill_defaults (sannav w)\<rparr>))
       (\<lambda>w1.
     case get_runid w1 of
       (Inl e, w2) \<Rightarrow> (Inl e, w2)
     | (Inr runid_rows, w2) \<Rightarrow>
        (case first_ID runid_rows of
           Inl e \<Rightarrow> (Inl e, w2)
         | Inr run_ID \<Rightarrow>
            (case sannav_lookup_async (py_str run_ID) w2 of
               (results, w3) \<Rightarrow>
                 (case sannav_of_results results of
                    Inl e \<Rightarrow> (Inl e, w3)
                  | Inr sannav_object_insert_dict_list \<Rightarrow>
                      then_do
                        (if activezones_of_results results \<noteq> [] then
                           then_do
                             (insert_data_to_table_batch ''activezones''
                                (map Inr (activezones_of_results results)) 250 w3)
                             (read_sql_tables_to_cache ''activezones'')
                         else (Inr (), w3))
                        (\<lambda>w4.
                      then_do
                        (if sannav_object_insert_dict_list \<noteq> [] then
                           except_ResourceWarning
                             (insert_data_to_table_batch ''sannaventities''
                                (map Inr sannav_object_insert_dict_list) 250 w4)
                         else (Inr (), w4))
                        (\<lambda>w5. except_ResourceWarning
                                 (update_source_refresh_timestamp ''sannaventities'' w5)))))))"

section \<open>Updates of the stacks table\<close>

text \<open>The statements among some calls that update the stacks table.\<close>

definition stacks_updates :: "event list \<Rightarrow> event list" where
  "stacks_updates events =
     filter (\<lambda>e. case e of Execute s \<Rightarrow> prefix ''UPDATE [dbo].[stacks]'' s | Commit \<Rightarrow> False) events"

text \<open>
  Between two worlds the stacks cache and the incoming stacks are the same, and the calls
  made from the first to the second hold no update of the stacks table.
\<close>

definition steady :: "world \<Rightarrow> world \<Rightarrow> bool" where
  "steady w w' =
     (cache w' ''stacks'' = cache w ''stacks'' \<and> stacks w' = stacks w
      \<and> take (length (trace w)) (trace w') = trace w
      \<and> stacks_updates (drop (length (trace w)) (trace w')) = [])"

text \<open>
  The columns of the stacks table in which an incoming record differs from a cached row.
\<close>

definition differing_columns :: "dict \<Rightarrow> dict \<Rightarrow> string list" where
  "differing_columns formatted table_entry =
     filter (\<lambda>column. dict_get formatted column \<noteq> dict_get table_entry column) stack_columns"

text \<open>
  The stack of a record is cached, and the first cached row with its name has the three
  location columns with the values of the record.
\<close>

definition stack_unchanged :: "dict list \<Rightarrow> dict \<Rightarrow> bool" where
  "stack_unchanged rows record =
     (case stacks_data_formatted record of
        Inl e \<Rightarrow> False
      | Inr formatted \<Rightarrow>
         (case search_rows rows ''Stack'' (dict_get record ''stack'') of
            Inl e \<Rightarrow> False
          | Inr [] \<Rightarrow> False
          | Inr (table_entry # others) \<Rightarrow>
              list_all (\<lambda>column. dict_get table_entry column \<noteq> None
                                 \<and> dict_get formatted column = dict_get table_entry column)
                stack_columns))"

section \<open>What a batch is expected to write\<close>

text \<open>
  The quoted values of one record under the column list of the batch, and the text of one
  multi-row statement holding the given rows in their order. The batched insert is
  compared with these below.
\<close>

definition row_values :: "string list \<Rightarrow> dict \<Rightarrow> string list" where
  "row_values columns_list d =
     map (\<lambda>column. sq @ py_str (the (dict_get d column)) @ sq)
       (filter (\<lambda>column. column \<noteq> ''datecreated'' \<and> column \<noteq> ''ID'') columns_list)"

definition multi_row_insert :: "string \<Rightarrow> string list \<Rightarrow> string list list \<Rightarrow> string" where
  "multi_row_insert table_name columns_list rows =
     batch_header table_name columns_list
       @ join ('','' @ crlf) (map (\<lambda>value_insert. ''('' @ join '','' value_insert @ '')'') rows)"

abbreviation (input) row_line :: "string list \<Rightarrow> string" where
  "row_line \<equiv> \<lambda>value_insert. ''('' @ join '','' value_insert @ ''),'' @ crlf"

text \<open>A record has every column of the batch that is written.\<close>

definition has_columns :: "string list \<Rightarrow> dict \<Rightarrow> bool" where
  "has_columns columns_list d =
     list_all (\<lambda>column. column = ''datecreated'' \<or> column = ''ID'' \<or> dict_get d column \<noteq> None)
       columns_list"

text \<open>A list cut into pieces of \<open>n\<close> elements, the last piece holding what is left.\<close>

function chunks :: "nat \<Rightarrow> 'a list \<Rightarrow> 'a list list" where
  "chunks n xs = (if n = 0 \<or> xs = [] then [] else take n xs # chunks n (drop n xs))"
  by pat_completeness auto
termination
  by (relation "measure (\<lambda>(n, xs). length xs)") auto

declare chunks.simps [simp del]

text \<open>The calls of a sequence of flushes: each batch is executed and committed.\<close>

definition flushes :: "string \<Rightarrow> string list \<Rightarrow> string list list list \<Rightarrow> event list" where
  "flushes table_name columns_list batches =
     concat (map (\<lambda>rows. [Execute (multi_row_insert table_name columns_list rows), Commit]) batches)"

section \<open>What the inserts are expected to send\<close>

text \<open>
  The following texts are written from the description of the writer, not from its code:
  the columns of a record that are written (every key but \<^verbatim>\<open>ID\<close> and \<^verbatim>\<open>datecreated\<close>), the
  single-row statement for given columns and quoted values, and the multi-row statement
  for given columns and rows of quoted values.
\<close>

definition written_columns :: "string list \<Rightarrow> string list" where
  "written_columns columns_list =
     filter (\<lambda>column. column \<noteq> ''ID'' \<and> column \<noteq> ''datecreated'') columns_list"

definition single_insert_text :: "string \<Rightarrow> string list \<Rightarrow> string list \<Rightarrow> string" where
  "single_insert_text table_name columns_list vals =
     ''INSERT INTO [dbo].['' @ table_name @ ''] (''
       @ join '','' (map (\<lambda>column. ''['' @ column @ '']'') columns_list)
       @ '') VALUES('' @ join '','' vals @ '')''"

definition batch_insert_text :: "string \<Rightarrow> string list \<Rightarrow> string list list \<Rightarrow> string" where
  "batch_insert_text table_name columns_list rows =
     ''INSERT INTO [dbo].['' @ table_name @ ''] (''
       @ join '','' (map (\<lambda>column. ''['' @ column @ '']'') columns_list)
       @ '') VALUES'' @ crlf
       @ join ('','' @ crlf) (map (\<lambda>vals. ''('' @ join '','' vals @ '')'') rows)"

text \<open>
  The columns of the customers table, and the quoted values expected for one incoming
  customer: its context identifier, its name with every quote doubled, 1 for a live flag
  \<^verbatim>\<open>Y\<close> and 0 for any other, and its stack number.
\<close>

definition customer_columns :: "string list" where
  "customer_columns = [''contextid'', ''customer'', ''status'', ''stackid'']"

definition customer_row :: "dict \<Rightarrow> string list" where
  "customer_row customer =
     [sq @ py_str (the (dict_get customer ''ID'')) @ sq,
      sq @ replace_sq (case dict_get customer ''NAME'' of Some (PStr s) \<Rightarrow> s | _ \<Rightarrow> []) @ sq,
      sq @ (if dict_get customer ''L'' = Some (PStr ''Y'') then ''1'' else ''0'') @ sq,
      sq @ py_str (the (dict_get customer ''STACKNUMBER'')) @ sq]"

text \<open>A customer record with the four fields the formatter reads, its name a string.\<close>

definition well_formed_customer :: "dict \<Rightarrow> bool" where
  "well_formed_customer customer =
     (dict_get customer ''L'' \<noteq> None
      \<and> (case dict_get customer ''NAME'' of Some (PStr s) \<Rightarrow> True | _ \<Rightarrow> False)
      \<and> dict_get customer ''ID'' \<noteq> None
      \<and> dict_get customer ''STACKNUMBER'' \<noteq> None)"

section \<open>Concrete inputs\<close>

text \<open>A store that accepts every call and holds no rows, with nothing cached or fetched yet.\<close>

definition example_world :: world where
  "example_world =
     \<lparr>raises = (\<lambda>h e. None), answers = (\<lambda>h q. []), now = (\<lambda>h. ''2024-01-01 00:00:00''),
      trace = [], cache = (\<lambda>t. []), customers = [], stacks = [], sannav = [],
      activezone_object_id_table_dict_list = [], set_order = remdups\<rparr>"

text \<open>A cache with one row in each reference table.\<close>

definition example_cache :: "string \<Rightarrow> dict list" where
  "example_cache t =
     (if t = ''entitytype'' then [[(''ID'', PInt 1), (''name'', PStr ''device'')]]
      else if t = ''fabric'' then [[(''ID'', PInt 2), (''name'', PStr ''fabA'')]]
      else if t = ''health'' then [[(''ID'', PInt 3), (''name'', PStr ''HEALTHY'')]]
      else if t = ''status'' then [[(''ID'', PInt 4), (''name'', PStr ''ONLINE'')]]
      else if t = ''switch'' then [[(''ID'', PInt 5), (''name'', PStr ''sw1'')]]
      else if t = ''zone'' then [[(''ID'', PInt 6), (''name'', PStr ''z1'')]]
      else [])"

text \<open>A switchport record whose remote device has the given name.\<close>

definition example_switchport :: "string \<Rightarrow> sannav_record" where
  "example_switchport remote_device =
     \<lparr>entries =
        [(''connectedDeviceType'', PStr ''Initiator''),
         (''remoteDevice'', PStr remote_device),
         (''remotePort'', PStr ''port7''),
         (''remoteNodeWwn'', PStr []),
         (''id'', PInt 42),
         (''wwn'', PStr ''10:00''),
         (''portNumber'', PInt 3),
         (''slotNumber'', PInt 0),
         (''ipAddress'', PStr ''10.0.0.1''),
         (''fabricName'', PStr ''fabA''),
         (''health'', PStr ''HEALTHY''),
         (''status'', PStr ''ONLINE''),
         (''switchName'', PStr ''sw1''),
         (''zone'', PStr ''z1''),
         (''zoneAlias'', PStr ''z1''),
         (''entitytype'', PStr ''none'')],
      activeZones = Some [''z1'']\<rparr>"

text \<open>The row the formatter builds for that record in run 7, up to its device name.\<close>

definition example_row :: "string \<Rightarrow> dict" where
  "example_row devicename =
     [(''runid'', PStr ''7''), (''id'', PStr ''42''), (''wwn'', PStr ''10:00''),
      (''portnumber'', PStr ''3''), (''slotnumber'', PStr ''0''), (''remotewwn'', PStr ''none''),
      (''ipaddress'', PStr ''10.0.0.1''), (''devicename'', PStr devicename),
      (''entitytypeid'', PStr ''1''), (''fabricNameid'', PStr ''2''), (''healthid'', PStr ''3''),
      (''statusid'', PStr ''4''), (''switchNameid'', PStr ''5''), (''zoneid'', PStr ''6'')]"

definition example_zone_rows :: "dict list" where
  "example_zone_rows = [[(''runid'', PStr ''7''), (''sannaventityid'', PStr ''42''), (''zoneid'', PStr ''6'')]]"

text \<open>Two customers, with a store that accepts every call and with one that refuses every call.\<close>

definition example_customers_world :: world where
  "example_customers_world =
     example_world\<lparr>customers :=
       [[(''ID'', PStr ''1''), (''NAME'', PStr ''Acme''), (''L'', PStr ''Y''), (''STACKNUMBER'', PStr ''12'')],
        [(''ID'', PStr ''2''), (''NAME'', PStr ''Bolt''), (''L'', PStr ''N''), (''STACKNUMBER'', PStr ''7'')]]\<rparr>"

definition refusing_world :: world where
  "refusing_world = example_customers_world\<lparr>raises := (\<lambda>h e. Some ResourceWarning)\<rparr>"

text \<open>
  A stack coming in with the local location A2 and with two webpools, and the statement that
  sets this local location on its row of the stacks table.
\<close>

definition example_stack_record :: dict where
  "example_stack_record =
     [(''stack'', PStr ''S1''), (''local_location'', PStr ''A2''), (''prod_location'', PStr ''B''),
      (''remote_location'', PStr ''C''),
      (''prod_webpool_name'', PStr ''wp1''), (''prod_webpool'', PStr ''web1''),
      (''remote_webpool_name'', PStr ''wp2''), (''remote_webpool'', PStr ''web2'')]"

definition example_stack_update :: string where
  "example_stack_update =
     ''UPDATE [dbo].[stacks]'' @ crlf @ ''SET [locallocation] = '' @ sq @ ''A2'' @ sq @ crlf
       @ ''WHERE stack = '' @ sq @ ''S1'' @ sq"

text \<open>The same two customers with a store that raises a \<^verbatim>\<open>ResourceWarning\<close> on every insert.\<close>

definition insert_refusing_world :: world where
  "insert_refusing_world =
     example_customers_world\<lparr>raises :=
       (\<lambda>h e. case e of
                 Execute s \<Rightarrow> if prefix ''INSERT'' s then Some ResourceWarning else None
               | Commit \<Rightarrow> None)\<rparr>"

text \<open>The statement that holds these two customers.\<close>

definition example_customers_insert :: string where
  "example_customers_insert =
     ''INSERT INTO [dbo].[customers] ([contextid],[customer],[status],[stackid]) VALUES'' @ crlf
       @ ''('' @ sq @ ''1'' @ sq @ '','' @ sq @ ''Acme'' @ sq @ '','' @ sq @ ''1'' @ sq @ '',''
       @ sq @ ''12'' @ sq @ ''),'' @ crlf
       @ ''('' @ sq @ ''2'' @ sq @ '','' @ sq @ ''Bolt'' @ sq @ '','' @ sq @ ''0'' @ sq @ '',''
       @ sq @ ''7'' @ sq @ '')''"

text \<open>A record that carries an identifier and a creation date.\<close>

definition example_switch_record :: dict where
  "example_switch_record =
     [(''ID'', PStr ''9''), (''name'', PStr ''sw1''), (''datecreated'', PStr ''today'')]"

section \<open>What the stack updates are expected to be\<close>

text \<open>
  The three columns of the stacks table that an incoming record may change, each with the
  field of the incoming record that it is compared with.
\<close>

definition mutable_stack_columns :: "(string \<times> string) list" where
  "mutable_stack_columns =
     [(''locallocation'', ''local_location''), (''prodlocation'', ''prod_location''),
      (''remotelocation'', ''remote_location'')]"

text \<open>
  The columns in which an incoming record differs from a row of the stacks table.
\<close>

definition stack_differences :: "dict \<Rightarrow> dict \<Rightarrow> (string \<times> string) list" where
  "stack_differences record table_entry =
     filter (\<lambda>(column, field). dict_get record field \<noteq> dict_get table_entry column)
       mutable_stack_columns"

text \<open>
  The text of an update of the stacks table that sets the given columns to the values of the
  incoming record, on the rows of its stack. It is written out here on its own, not through
  \<^verbatim>\<open>update_data_table\<close>.
\<close>

definition stacks_update_text :: "dict \<Rightarrow> (string \<times> string) list \<Rightarrow> string" where
  "stacks_update_text record differences =
     ''UPDATE [dbo].[stacks]'' @ crlf @ ''SET ''
       @ join '',''
           (map (\<lambda>(column, field). ''['' @ column @ ''] = '' @ sq
                                    @ py_str (the (dict_get record field)) @ sq @ crlf)
              differences)
       @ ''WHERE stack = '' @ sq @ py_str (the (dict_get record ''stack'')) @ sq"

text \<open>
  The first row of the stacks cache that has the stack name of the incoming record.
\<close>

definition cached_stack :: "dict list \<Rightarrow> dict \<Rightarrow> dict option" where
  "cached_stack rows record =
     find (\<lambda>row. dict_get row ''Stack'' = dict_get record ''stack'') rows"

text \<open>
  The incoming record has its stack name and its three locations, and every cached row has
  a stack name: the lookup and the comparison raise no \<^verbatim>\<open>KeyError\<close>.
\<close>

definition stack_record_ok :: "dict list \<Rightarrow> dict \<Rightarrow> bool" where
  "stack_record_ok rows record =
     (list_all (\<lambda>field. dict_get record field \<noteq> None)
        [''stack'', ''local_location'', ''prod_location'', ''remote_location'']
      \<and> list_all (\<lambda>row. dict_get row ''Stack'' \<noteq> None) rows)"

text \<open>
  A row of the stacks table has the three location columns.
\<close>

definition has_stack_columns :: "dict \<Rightarrow> bool" where
  "has_stack_columns table_entry =
     list_all (\<lambda>(column, field). dict_get table_entry column \<noteq> None) mutable_stack_columns"

text \<open>
  The stacks cache is in step with an incoming record: the stack of the record is cached and
  its row differs from the record in no column.
\<close>

definition stack_in_step :: "dict list \<Rightarrow> dict \<Rightarrow> bool" where
  "stack_in_step rows record =
     (stack_record_ok rows record
      \<and> (case cached_stack rows record of
            None \<Rightarrow> False
          | Some table_entry \<Rightarrow>
              has_stack_columns table_entry \<and> stack_differences record table_entry = []))"

text \<open>
  A cache where stack S1 has a given local location, and where the webpools and webs of
  \<^verbatim>\<open>example_stack_record\<close> are known.
\<close>

definition example_stack_cache :: "string \<Rightarrow> string \<Rightarrow> dict list" where
  "example_stack_cache local_location t =
     (if t = ''stacks'' then
        [[(''ID'', PInt 1), (''Stack'', PStr ''S1''), (''locallocation'', PStr local_location),
          (''prodlocation'', PStr ''B''), (''remotelocation'', PStr ''C'')]]
      else if t = ''webpools'' then
        [[(''ID'', PInt 1), (''name'', PStr ''wp1'')], [(''ID'', PInt 2), (''name'', PStr ''wp2'')]]
      else if t = ''webs'' then
        [[(''ID'', PInt 1), (''name'', PStr ''web1'')], [(''ID'', PInt 2), (''name'', PStr ''web2'')]]
      else [])"

text \<open>
  The stack S1 is cached with the local location A and comes in twice with the local
  location A2; the store accepts every call and answers a query of the webs table with the
  cached webs.
\<close>

definition example_twice_world :: world where
  "example_twice_world =
     example_world\<lparr>cache := example_stack_cache ''A'',
                   answers := (\<lambda>h q. if q = ''SELECT * FROM [storagetooling].[dbo].[webs]''
                                      then example_stack_cache ''A'' ''webs'' else []),
                   stacks := [example_stack_record, example_stack_record]\<rparr>"

text \<open>
  The same, with S1 cached with the local location A2 that the records bring.
\<close>

definition example_settled_world :: world where
  "example_settled_world = example_twice_world\<lparr>cache := example_stack_cache ''A2''\<rparr>"

section \<open>Reference rows for the switchport records\<close>

text \<open>
  From one world to a later one of the same pass: the store behaves as before, the incoming
  switchport records and the iteration order of sets are the same, the calls made so far are
  still the first calls, and only the caches of the given tables may have been read again.
\<close>

definition carried_on :: "string set \<Rightarrow> world \<Rightarrow> world \<Rightarrow> bool" where
  "carried_on tables w w' =
     (raises w' = raises w \<and> answers w' = answers w \<and> set_order w' = set_order w
      \<and> sannav w' = sannav w \<and> prefix (trace w) (trace w')
      \<and> (\<forall>t. t \<notin> tables \<longrightarrow> cache w' t = cache w t))"

text \<open>
  The statement expected for a switch that the cache lacks: its name, quoted, with every
  single quote doubled, into the name column of the switch table.
\<close>

definition switch_insert :: "string \<Rightarrow> string" where
  "switch_insert switch_name =
     ''INSERT INTO [dbo].[switch] ([name]) VALUES('' @ sq @ replace_sq switch_name @ sq @ '')''"

text \<open>
  A pass with one switchport record on the switch sw2, where the cache knows the switch sw1
  only. The store accepts every call; after the insert it answers a query of the switch table
  with both switches, a query of another reference table with the cached rows, and the query
  of the run with the identifier 7.
\<close>

definition example_new_switch_world :: world where
  "example_new_switch_world =
     example_world\<lparr>
       answers := (\<lambda>h q.
          if q = ''SELECT * FROM [storagetooling].[dbo].[switch]'' then
            [[(''ID'', PInt 5), (''name'', PStr ''sw1'')], [(''ID'', PInt 8), (''name'', PStr ''sw2'')]]
          else if q = runid_query ''2024-01-01 00:00:00'' then [[(''ID'', PInt 7)]]
          else concat (map (\<lambda>t. if q = select_query t then example_cache t else [])
                         [''fabric'', ''health'', ''status'', ''zone''])),
       cache := example_cache,
       sannav := [(example_switchport ''host1'')
                    \<lparr>entries := dict_set ''switchName'' (PStr ''sw2'')
                                  (entries (example_switchport ''host1''))\<rparr>]\<rparr>"

text \<open>
  The same pass when the reference tables are done (lines 1108 to 1156), and when the run
  has its identifier (line 1162).
\<close>

definition example_synced_world :: world where
  "example_synced_world =
     snd (sync_id_tables update_sannav_tables
            (example_new_switch_world
               \<lparr>sannav := map fill_defaults (sannav example_new_switch_world)\<rparr>))"

definition example_run_world :: world where
  "example_run_world = snd (get_runid example_synced_world)"

section \<open>Properties\<close>

section \<open>Dictionaries\<close>

lemma dict_get_dict_set: "dict_get (dict_set k v d) k' = (if k' = k then Some v else dict_get d k')"
  by (simp add: dict_get_def dict_set_def update_conv')

lemma keys_dict_set: "set (keys (dict_set k v d)) = insert k (set (keys d))"
  by (simp add: keys_def dict_set_def dom_update)

lemma keys_dict_set_mem: "k \<in> set (keys d) \<Longrightarrow> keys (dict_set k v d) = keys d"
  by (simp add: keys_def dict_set_def update_keys)

lemma dict_get_None_iff: "dict_get d k = None \<longleftrightarrow> k \<notin> set (keys d)"
  by (simp add: dict_get_def keys_def map_of_eq_None_iff)

section \<open>The columns of an insert\<close>

lemma insert_columns_loop_columns:
  "insert_columns_loop cols (d, ci, vi) = Inr (d1, ci1, vi1) \<Longrightarrow>
     ci1 = ci @ batch_column_insert cols \<and> length vi1 = length vi + length (batch_column_insert cols)"
proof (induction cols arbitrary: d ci vi)
  case Nil
  then show ?case by (simp add: batch_column_insert_def)
next
  case (Cons a cols)
  show ?case
  proof (cases "a \<noteq> ''datecreated'' \<and> a \<noteq> ''ID''")
    case True
    from Cons.prems True obtain d' v1 where
      "insert_columns_loop cols (d', ci @ [''['' @ a @ '']''], vi @ [sq @ py_str v1 @ sq]) = Inr (d1, ci1, vi1)"
      by (auto simp: Let_def split: option.splits sum.splits if_splits)
    from Cons.IH [OF this] True show ?thesis
      by (simp add: batch_column_insert_def)
  next
    case False
    with Cons.prems have "insert_columns_loop cols (d, ci, vi) = Inr (d1, ci1, vi1)"
      by auto
    from Cons.IH [OF this] False show ?thesis
      by (auto simp: batch_column_insert_def)
  qed
qed

lemma batch_value_insert_length:
  "batch_value_insert cols entry = Inr vs \<Longrightarrow> length vs = length (batch_column_insert cols)"
  by (induction cols arbitrary: vs)
     (auto split: option.splits sum.splits if_splits simp: batch_column_insert_def)

section \<open>Escaping of quotes\<close>

text \<open>
  Claim C1. The single-row insert doubles a quote inside a value; the batched insert
  writes the value as it is. For the one-column record whose customer is O'Brien the
  batched insert sends a statement with the value 'O'Brien', the single-row insert one
  with 'O''Brien'.
\<close>

theorem batch_insert_leaves_quote_single:
  "trace (snd (insert_data_to_table_batch ''customers''
                 [Inr [(''customer'', PStr (''O'' @ sq @ ''Brien''))]] 250 example_world))
     = [Execute (''INSERT INTO [dbo].[customers] ([customer]) VALUES'' @ crlf
                   @ ''('' @ sq @ ''O'' @ sq @ ''Brien'' @ sq @ '')''),
        Commit]
   \<and> trace (snd (insert_data_to_table ''customers''
                   [(''customer'', PStr (''O'' @ sq @ ''Brien''))] example_world))
     = [Execute (''INSERT INTO [dbo].[customers] ([customer]) VALUES(''
                   @ sq @ ''O'' @ sq @ sq @ ''Brien'' @ sq @ '')''),
        Commit]"
  by (simp add: insert_data_to_table_batch_def insert_data_to_table_def example_world_def
        cursor_execute_def conn_commit_def execute_commit_def except_ResourceWarning_def
        flush_def keys_def batch_header_def batch_column_insert_def insert_statement_def
        dict_get_def dict_set_def slice_to_def replace_sq_def)

section \<open>The device name of a switchport record\<close>

lemma resolve_device_dict_set:
  "k \<noteq> ''remoteDevice'' \<Longrightarrow> k \<noteq> ''remotePort'' \<Longrightarrow> resolve_device (dict_set k v d) = resolve_device d"
  by (simp add: resolve_device.simps dict_get_dict_set keys_dict_set)

lemma classify_keeps_device: "classify_entitytype d = Inr d1 \<Longrightarrow> resolve_device d1 = resolve_device d"
  by (auto simp: classify_entitytype_def ex_bind_def dict_item_def resolve_device_dict_set
           split: option.splits sum.splits if_splits)

lemma truncate_device_long: "length s > 50 \<Longrightarrow> truncate_device (PStr s) = Inr (PStr (take 50 s))"
  by (simp add: truncate_device_def ex_bind_def slice_to_def)

lemma id_tables_loop_other:
  "id_tables_loop ts c obj row = Inr row' \<Longrightarrow> \<forall>t\<in>set ts. source_label t @ ''id'' \<noteq> k
     \<Longrightarrow> dict_get row' k = dict_get row k"
  by (induction ts arbitrary: row) (auto simp: ex_bind_def dict_get_dict_set split: sum.splits)

lemma id_labels_not_devicename:
  "\<forall>t\<in>set sannav_common_id_tables. source_label t @ ''id'' \<noteq> ''devicename''"
  by (simp add: sannav_common_id_tables_def source_label_def)

lemma sannaventity_base_devicename:
  "sannaventity_base runid obj device = Inr base \<Longrightarrow> dict_get base ''devicename'' = Some device"
  by (auto simp: sannaventity_base_def ex_bind_def dict_get_def split: sum.splits)

lemma format_devicename:
  assumes "fst (format_sannav_insert_data tables_cache sannav_object runid) = Inr (row, zones)"
  shows "\<exists>d1. classify_entitytype (entries sannav_object) = Inr d1 \<and>
           (\<exists>device. truncate_device (resolve_device d1) = Inr device
                      \<and> dict_get row ''devicename'' = Some device)"
proof -
  from assms obtain d1 device d2 base where
    c: "classify_entitytype (entries sannav_object) = Inr d1" and
    t: "truncate_device (resolve_device d1) = Inr device" and
    b: "sannaventity_base runid d2 device = Inr base" and
    l: "id_tables_loop sannav_common_id_tables tables_cache d2 base = Inr row"
    by (auto simp: format_sannav_insert_data_def ex_bind_def split: sum.splits option.splits)
  have "dict_get row ''devicename'' = dict_get base ''devicename''"
    using id_tables_loop_other [OF l id_labels_not_devicename] .
  with sannaventity_base_devicename [OF b] c t show ?thesis by simp
qed

lemma example_switchport_formatted:
  "length dev \<le> 50 \<Longrightarrow>
   fst (format_sannav_insert_data example_cache (example_switchport dev) ''7'')
     = Inr (example_row dev, example_zone_rows)"
  by (simp add: format_sannav_insert_data_def example_cache_def example_switchport_def
        example_row_def example_zone_rows_def classify_entitytype_def ex_bind_def dict_item_def
        dict_get_def dict_set_def resolve_device.simps keys_def truncate_device_def
        default_remoteNodeWwn_def sannaventity_base_def sannav_common_id_tables_def
        source_label_def first_ID_def str_of_int_def digits.simps)

lemma example_switchport_formatted_long:
  "50 < length dev \<Longrightarrow>
   fst (format_sannav_insert_data example_cache (example_switchport dev) ''7'')
     = Inr (example_row (take 50 dev), example_zone_rows)"
  by (simp add: format_sannav_insert_data_def example_cache_def example_switchport_def
        example_row_def example_zone_rows_def classify_entitytype_def ex_bind_def dict_item_def
        dict_get_def dict_set_def resolve_device.simps keys_def truncate_device_def
        default_remoteNodeWwn_def sannaventity_base_def sannav_common_id_tables_def
        source_label_def first_ID_def str_of_int_def digits.simps slice_to_def)

text \<open>
  Claim C2, as amended. When the formatter returns a row and the resolved device name is
  a string of more than 50 characters, the \<^verbatim>\<open>devicename\<close> column of the row holds the
  first 50 characters of that name.
\<close>

theorem devicename_keeps_first_50:
  assumes "fst (format_sannav_insert_data tables_cache sannav_object runid) = Inr (row, zones)"
      and "resolve_device (entries sannav_object) = PStr s"
      and "length s > 50"
  shows "dict_get row ''devicename'' = Some (PStr (take 50 s))"
  using format_devicename [OF assms(1)] assms(2,3)
  by (auto simp: classify_keeps_device truncate_device_long)

theorem devicename_keeps_first_50_witness:
  "fst (format_sannav_insert_data example_cache
          (example_switchport ''abcdefghijklmnopqrstuvwxyzabcdefghijklmnopqrstuvwxyz'') ''7'')
     = Inr (example_row ''abcdefghijklmnopqrstuvwxyzabcdefghijklmnopqrstuvwx'', example_zone_rows)
   \<and> resolve_device (entries (example_switchport ''abcdefghijklmnopqrstuvwxyzabcdefghijklmnopqrstuvwxyz''))
       = PStr ''abcdefghijklmnopqrstuvwxyzabcdefghijklmnopqrstuvwxyz''
   \<and> length ''abcdefghijklmnopqrstuvwxyzabcdefghijklmnopqrstuvwxyz'' > 50
   \<and> dict_get (example_row ''abcdefghijklmnopqrstuvwxyzabcdefghijklmnopqrstuvwx'') ''devicename''
       = Some (PStr (take 50 ''abcdefghijklmnopqrstuvwxyzabcdefghijklmnopqrstuvwxyz''))"
proof -
  have f: "fst (format_sannav_insert_data example_cache
          (example_switchport ''abcdefghijklmnopqrstuvwxyzabcdefghijklmnopqrstuvwxyz'') ''7'')
     = Inr (example_row ''abcdefghijklmnopqrstuvwxyzabcdefghijklmnopqrstuvwx'', example_zone_rows)"
    using example_switchport_formatted_long
            [of "''abcdefghijklmnopqrstuvwxyzabcdefghijklmnopqrstuvwxyz''"]
    by simp
  have r: "resolve_device (entries (example_switchport ''abcdefghijklmnopqrstuvwxyzabcdefghijklmnopqrstuvwxyz''))
       = PStr ''abcdefghijklmnopqrstuvwxyzabcdefghijklmnopqrstuvwxyz''"
    by (simp add: example_switchport_def resolve_device.simps keys_def dict_get_def)
  have l: "length ''abcdefghijklmnopqrstuvwxyzabcdefghijklmnopqrstuvwxyz'' > 50"
    by simp
  from devicename_keeps_first_50 [OF f r l] f r l show ?thesis by simp
qed

text \<open>
  The claim as written asks for the last 50 characters. For a remote device named with
  the alphabet twice (52 characters) the row holds the name without its last two
  characters, which is not the name without its first two.
\<close>

theorem devicename_last_50_counterexample:
  "fst (format_sannav_insert_data example_cache
          (example_switchport ''abcdefghijklmnopqrstuvwxyzabcdefghijklmnopqrstuvwxyz'') ''7'')
     = Inr (example_row ''abcdefghijklmnopqrstuvwxyzabcdefghijklmnopqrstuvwx'', example_zone_rows)
   \<and> dict_get (example_row ''abcdefghijklmnopqrstuvwxyzabcdefghijklmnopqrstuvwx'') ''devicename''
       \<noteq> Some (PStr (drop (length ''abcdefghijklmnopqrstuvwxyzabcdefghijklmnopqrstuvwxyz'' - 50)
                          ''abcdefghijklmnopqrstuvwxyzabcdefghijklmnopqrstuvwxyz''))"
  using example_switchport_formatted_long
          [of "''abcdefghijklmnopqrstuvwxyzabcdefghijklmnopqrstuvwxyz''"]
  by (simp add: example_row_def dict_get_def)

text \<open>
  Claim C3. A record with both \<^verbatim>\<open>remoteDevice\<close> and \<^verbatim>\<open>remotePort\<close> always takes the remote
  device: the test \<^verbatim>\<open>!= '' or != 'localhost'\<close> holds for every value. For the remote device
  \<^verbatim>\<open>localhost\<close> and the remote port \<^verbatim>\<open>port7\<close> the row is written with the device name
  \<^verbatim>\<open>localhost\<close>, and for an empty remote device with an empty name.
\<close>

theorem localhost_device_is_kept:
  "resolve_device (entries (example_switchport ''localhost'')) = PStr ''localhost''
   \<and> fst (format_sannav_insert_data example_cache (example_switchport ''localhost'') ''7'')
       = Inr (example_row ''localhost'', example_zone_rows)
   \<and> resolve_device (entries (example_switchport [])) = PStr []
   \<and> fst (format_sannav_insert_data example_cache (example_switchport []) ''7'')
       = Inr (example_row [], example_zone_rows)"
  using example_switchport_formatted [of "''localhost''"] example_switchport_formatted [of "[]"]
  by (simp add: example_switchport_def resolve_device.simps keys_def dict_get_def)

lemma resolve_device_both_present:
  "''remoteDevice'' \<in> set (keys d) \<Longrightarrow> ''remotePort'' \<in> set (keys d)
     \<Longrightarrow> resolve_device d = the (dict_get d ''remoteDevice'')"
  by (auto simp: resolve_device.simps)

section \<open>The flushes of a batch\<close>

lemma batch_value_insert_ok:
  "has_columns cols d \<Longrightarrow> batch_value_insert cols (Inr d) = Inr (row_values cols d)"
  by (induction cols) (auto simp: has_columns_def row_values_def)

lemma concat_row_lines:
  "ps \<noteq> [] \<Longrightarrow> concat (map row_line ps)
      = join ('','' @ crlf) (map (\<lambda>value_insert. ''('' @ join '','' value_insert @ '')'') ps)
          @ '','' @ crlf"
proof (induction ps)
  case Nil then show ?case by simp
next
  case (Cons p ps)
  show ?case
  proof (cases ps)
    case Nil then show ?thesis by simp
  next
    case (Cons q qs)
    with Cons.IH show ?thesis by simp
  qed
qed

lemma slice_to_drop3: "slice_to (xs @ [a, b, c]) (- 3) = xs"
  by (simp add: slice_to_def)

lemma slice_block:
  assumes "ps \<noteq> []"
  shows "slice_to (batch_header t cols @ concat (map row_line ps)) (- 3) = multi_row_insert t cols ps"
proof -
  have eq: "batch_header t cols @ concat (map row_line ps)
              = multi_row_insert t cols ps @ [CHR '','', CHR 0x0D, CHR 0x0A]"
    using concat_row_lines [OF assms] by (simp add: multi_row_insert_def)
  show ?thesis by (subst eq) (rule slice_to_drop3)
qed

lemma flush_quiet:
  "raises w = (\<lambda>h e. None) \<Longrightarrow>
   flush s w = (Inr (), w\<lparr>trace := trace w @ [Execute (slice_to s (- 3)), Commit]\<rparr>)"
  by (simp add: flush_def execute_commit_def cursor_execute_def conn_commit_def
        except_ResourceWarning_def)

lemma batch_loop_below:
  "list_all (has_columns cols) recs \<Longrightarrow> 0 < bs \<Longrightarrow> count + length recs < bs \<Longrightarrow>
   batch_loop t cols bs (map Inr recs) block count w
     = (Inr (block @ concat (map row_line (map (row_values cols) recs)), count + length recs), w)"
proof (induction recs arbitrary: block count)
  case Nil then show ?case by simp
next
  case (Cons r recs)
  then show ?case by (simp add: batch_value_insert_ok Let_def)
qed

lemma batch_loop_full:
  "list_all (has_columns cols) recs \<Longrightarrow> recs \<noteq> [] \<Longrightarrow> raises w = (\<lambda>h e. None) \<Longrightarrow>
   count = length pending \<Longrightarrow> count + length recs = bs \<Longrightarrow>
   block = batch_header t cols @ concat (map row_line pending) \<Longrightarrow>
   batch_loop t cols bs (map Inr recs) block count w
     = (Inr (batch_header t cols, 0),
        w\<lparr>trace := trace w
            @ [Execute (multi_row_insert t cols (pending @ map (row_values cols) recs)), Commit]\<rparr>)"
proof (induction recs arbitrary: block count pending)
  case Nil then show ?case by simp
next
  case (Cons r recs)
  note prems = Cons.prems and IH = Cons.IH
  have ok: "batch_value_insert cols (Inr r) = Inr (row_values cols r)"
    using prems(1) by (simp add: batch_value_insert_ok)
  have bs: "0 < bs" using prems(5) by simp
  show ?case
  proof (cases "recs = []")
    case True
    have sl: "slice_to (batch_header t cols
                 @ concat (map row_line (pending @ [row_values cols r]))) (- 3)
            = multi_row_insert t cols (pending @ [row_values cols r])"
      by (rule slice_block) simp
    have m: "(count + 1) mod bs = 0" using prems(5) True by simp
    show ?thesis
      using True prems(3,4,6) sl m bs ok
      by (simp add: Let_def flush_quiet)
  next
    case False
    have step: "batch_loop t cols bs (map Inr recs) (block @ row_line (row_values cols r)) (count + 1) w
        = (Inr (batch_header t cols, 0),
           w\<lparr>trace := trace w
               @ [Execute (multi_row_insert t cols
                    ((pending @ [row_values cols r]) @ map (row_values cols) recs)), Commit]\<rparr>)"
      using prems False by (intro IH) auto
    have "count + 1 < bs" using prems(5) False by (cases recs) auto
    then have m: "(count + 1) mod bs \<noteq> 0" by simp
    show ?thesis
      using step m bs ok
      by (simp add: Let_def)
  qed
qed

lemma batch_loop_append:
  "batch_loop t cols bs (xs @ ys) block count w =
     (case batch_loop t cols bs xs block count w of
        (Inl e, w1) \<Rightarrow> (Inl e, w1)
      | (Inr (block1, count1), w1) \<Rightarrow> batch_loop t cols bs ys block1 count1 w1)"
  by (induction xs arbitrary: block count w) (auto simp: Let_def split: sum.splits prod.splits)

lemma chunks_Nil [simp]: "chunks n [] = []"
  by (simp add: chunks.simps)

lemma chunks_short: "0 < n \<Longrightarrow> xs \<noteq> [] \<Longrightarrow> length xs \<le> n \<Longrightarrow> chunks n xs = [xs]"
  by (subst chunks.simps) simp

lemma chunks_long: "0 < n \<Longrightarrow> xs \<noteq> [] \<Longrightarrow> chunks n xs = take n xs # chunks n (drop n xs)"
  by (subst chunks.simps) simp

lemma chunks_plus_one: "0 < n \<Longrightarrow> length xs = Suc n \<Longrightarrow> chunks n xs = [take n xs, [xs ! n]]"
proof -
  assume n: "0 < n" and l: "length xs = Suc n"
  then have ne: "xs \<noteq> []" by auto
  have d: "drop n xs = [xs ! n]"
    using l by (metis Cons_nth_drop_Suc drop_all lessI order_refl)
  show ?thesis
    using chunks_long [OF n ne] d chunks_short [of n "[xs ! n]"] n by simp
qed

lemma concat_chunks: "0 < n \<Longrightarrow> concat (chunks n xs) = xs"
proof (induction n xs rule: chunks.induct)
  case (1 n xs)
  show ?case
  proof (cases "xs = []")
    case True then show ?thesis by simp
  next
    case False
    with 1 show ?thesis by (simp add: chunks_long)
  qed
qed

lemma flushes_Nil [simp]: "flushes t cols [] = []"
  by (simp add: flushes_def)

lemma flushes_Cons [simp]:
  "flushes t cols (rows # batches) = Execute (multi_row_insert t cols rows) # Commit # flushes t cols batches"
  by (simp add: flushes_def)

lemma world_trace_same [simp]: "w\<lparr>trace := trace w\<rparr> = w"
  by simp

lemma batch_loop_chunks:
  "raises w = (\<lambda>h e. None) \<Longrightarrow> 0 < bs \<Longrightarrow> list_all (has_columns cols) recs \<Longrightarrow>
   (case batch_loop t cols bs (map Inr recs) (batch_header t cols) 0 w of
      (Inl e, w1) \<Rightarrow> (Inl e, w1)
    | (Inr (block, count), w1) \<Rightarrow> if count > 0 then flush block w1 else (Inr (), w1))
   = (Inr (), w\<lparr>trace := trace w @ flushes t cols (chunks bs (map (row_values cols) recs))\<rparr>)"
proof (induction recs arbitrary: w rule: length_induct)
  case (1 recs)
  note quiet = "1.prems"(1) and bs = "1.prems"(2) and ok = "1.prems"(3)
  show ?case
  proof (cases "recs = []")
    case True
    then show ?thesis by simp
  next
    case False
    show ?thesis
    proof (cases "length recs < bs")
      case True
      have b: "batch_loop t cols bs (map Inr recs) (batch_header t cols) 0 w
                 = (Inr (batch_header t cols @ concat (map row_line (map (row_values cols) recs)),
                         0 + length recs), w)"
        using ok bs True by (intro batch_loop_below) auto
      have s: "slice_to (batch_header t cols @ concat (map row_line (map (row_values cols) recs))) (- 3)
                 = multi_row_insert t cols (map (row_values cols) recs)"
        using False by (intro slice_block) simp
      have c: "chunks bs (map (row_values cols) recs) = [map (row_values cols) recs]"
        using bs False True by (intro chunks_short) auto
      show ?thesis
        using False s by (simp only: b c) (simp add: flush_quiet [OF quiet])
    next
      case long: False
      let ?a = "take bs recs" and ?b = "drop bs recs"
      let ?w1 = "w\<lparr>trace := trace w
                    @ [Execute (multi_row_insert t cols ([] @ map (row_values cols) ?a)), Commit]\<rparr>"
      have split: "map Inr recs = map Inr ?a @ map Inr ?b"
        by (simp flip: map_append)
      have a: "batch_loop t cols bs (map Inr ?a) (batch_header t cols) 0 w
                 = (Inr (batch_header t cols, 0), ?w1)"
      proof (rule batch_loop_full [where pending = "[]"])
        show "list_all (has_columns cols) ?a" using ok by (simp add: list_all_iff) (meson in_set_takeD)
        show "?a \<noteq> []" using False bs by simp
        show "raises w = (\<lambda>h e. None)" by (rule quiet)
        show "0 = length ([] :: string list list)" by simp
        show "0 + length ?a = bs" using long by simp
        show "batch_header t cols = batch_header t cols @ concat (map row_line [])" by simp
      qed
      have shorter: "length ?b < length recs" using False bs by simp
      have okb: "list_all (has_columns cols) ?b"
        using ok by (simp add: list_all_iff) (meson in_set_dropD)
      have q1: "raises ?w1 = (\<lambda>h e. None)" using quiet by simp
      have ih: "(case batch_loop t cols bs (map Inr ?b) (batch_header t cols) 0 ?w1 of
                   (Inl e, w1) \<Rightarrow> (Inl e, w1)
                 | (Inr (block, count), w1) \<Rightarrow> if count > 0 then flush block w1 else (Inr (), w1))
                = (Inr (), ?w1\<lparr>trace := trace ?w1
                       @ flushes t cols (chunks bs (map (row_values cols) ?b))\<rparr>)"
        using "1.IH" shorter q1 bs okb by blast
      have c: "chunks bs (map (row_values cols) recs)
                 = map (row_values cols) ?a # chunks bs (map (row_values cols) ?b)"
        using bs False by (subst chunks_long) (simp_all add: take_map drop_map)
      show ?thesis
        using ih by (simp only: split batch_loop_append a) (simp add: c)
    qed
  qed
qed

lemma insert_batch_chunks:
  assumes "raises w = (\<lambda>h e. None)" and "0 < bs" and "recs \<noteq> []"
      and "list_all (has_columns (keys (hd recs))) recs"
  shows "insert_data_to_table_batch t (map Inr recs) bs w
           = (Inr (), w\<lparr>trace := trace w
                 @ flushes t (keys (hd recs)) (chunks bs (map (row_values (keys (hd recs))) recs))\<rparr>)"
proof -
  from assms(3) obtain r rs where recs: "recs = r # rs" by (cases recs) auto
  have "insert_data_to_table_batch t (map Inr recs) bs w
          = (case batch_loop t (keys r) bs (map Inr recs) (batch_header t (keys r)) 0 w of
               (Inl e, w1) \<Rightarrow> (Inl e, w1)
             | (Inr (block, count), w1) \<Rightarrow> if count > 0 then flush block w1 else (Inr (), w1))"
    unfolding insert_data_to_table_batch_def recs by (simp add: Let_def)
  also have "\<dots> = (Inr (), w\<lparr>trace := trace w
                 @ flushes t (keys r) (chunks bs (map (row_values (keys r)) recs))\<rparr>)"
    using assms(1,2,4) unfolding recs by (intro batch_loop_chunks) auto
  finally show ?thesis by (simp add: recs)
qed

text \<open>
  Claim C4. Against a store that accepts every call, and for records that all have the
  columns of the first one, the batched insert with block size 250 makes for 250 records
  exactly one flush, a statement with all 250 rows in the order of the list followed by its
  commit, and for 251 records exactly two, the first with the first 250 rows and the
  second with the last row.
\<close>

theorem batch_boundary:
  assumes "raises w = (\<lambda>h e. None)"
      and "list_all (has_columns (keys (hd record_list))) record_list"
  shows "(length record_list = 250 \<longrightarrow>
            insert_data_to_table_batch table_name (map Inr record_list) 250 w
              = (Inr (), w\<lparr>trace := trace w
                   @ [Execute (multi_row_insert table_name (keys (hd record_list))
                                 (map (row_values (keys (hd record_list))) record_list)),
                      Commit]\<rparr>))
       \<and> (length record_list = 251 \<longrightarrow>
            insert_data_to_table_batch table_name (map Inr record_list) 250 w
              = (Inr (), w\<lparr>trace := trace w
                   @ [Execute (multi_row_insert table_name (keys (hd record_list))
                                 (map (row_values (keys (hd record_list))) (take 250 record_list))),
                      Commit,
                      Execute (multi_row_insert table_name (keys (hd record_list))
                                 [row_values (keys (hd record_list)) (record_list ! 250)]),
                      Commit]\<rparr>))"
proof (intro conjI impI)
  assume l: "length record_list = 250"
  then have ne: "record_list \<noteq> []" by auto
  have c: "chunks 250 (map (row_values (keys (hd record_list))) record_list)
             = [map (row_values (keys (hd record_list))) record_list]"
    using l ne by (intro chunks_short) auto
  show "insert_data_to_table_batch table_name (map Inr record_list) 250 w
              = (Inr (), w\<lparr>trace := trace w
                   @ [Execute (multi_row_insert table_name (keys (hd record_list))
                                 (map (row_values (keys (hd record_list))) record_list)),
                      Commit]\<rparr>)"
    using insert_batch_chunks [OF assms(1) _ ne assms(2), of 250 table_name] c by simp
next
  assume l: "length record_list = 251"
  then have ne: "record_list \<noteq> []" by auto
  have c: "chunks 250 (map (row_values (keys (hd record_list))) record_list)
             = [take 250 (map (row_values (keys (hd record_list))) record_list),
                [map (row_values (keys (hd record_list))) record_list ! 250]]"
    using l by (intro chunks_plus_one) auto
  show "insert_data_to_table_batch table_name (map Inr record_list) 250 w
              = (Inr (), w\<lparr>trace := trace w
                   @ [Execute (multi_row_insert table_name (keys (hd record_list))
                                 (map (row_values (keys (hd record_list))) (take 250 record_list))),
                      Commit,
                      Execute (multi_row_insert table_name (keys (hd record_list))
                                 [row_values (keys (hd record_list)) (record_list ! 250)]),
                      Commit]\<rparr>)"
    using insert_batch_chunks [OF assms(1) _ ne assms(2), of 250 table_name] c l
    by (simp add: take_map)
qed

theorem batch_boundary_witness:
  "raises example_world = (\<lambda>h e. None)
   \<and> list_all (has_columns (keys (hd (replicate 250 [(''name'', PStr ''z1'')]))))
       (replicate 250 [(''name'', PStr ''z1'')])
   \<and> length (replicate 250 [(''name'', PStr ''z1'')]) = 250
   \<and> insert_data_to_table_batch ''zone'' (map Inr (replicate 250 [(''name'', PStr ''z1'')])) 250
         example_world
       = (Inr (), example_world\<lparr>trace := trace example_world
            @ [Execute (multi_row_insert ''zone''
                          (keys (hd (replicate 250 [(''name'', PStr ''z1'')])))
                          (map (row_values (keys (hd (replicate 250 [(''name'', PStr ''z1'')]))))
                             (replicate 250 [(''name'', PStr ''z1'')]))),
               Commit]\<rparr>)"
proof -
  have q: "raises example_world = (\<lambda>h e. None)" by (simp add: example_world_def)
  have h: "list_all (has_columns (keys (hd (replicate 250 [(''name'', PStr ''z1'')]))))
             (replicate 250 [(''name'', PStr ''z1'')])"
    by (simp add: list_all_iff has_columns_def keys_def dict_get_def)
  have l: "length (replicate 250 [(''name'', PStr ''z1'')]) = 250" by simp
  from batch_boundary [OF q h, of "''zone''"] q h l show ?thesis by blast
qed

section \<open>The customer family\<close>

lemma clear_table_cases:
  "clear_table t w =
     (case raises w (trace w) (Execute (''TRUNCATE TABLE [dbo].['' @ t @ '']'')) of
        Some e \<Rightarrow> (if e = ResourceWarning then Inr False else Inl e,
                   w\<lparr>trace := trace w @ [Execute (''TRUNCATE TABLE [dbo].['' @ t @ '']'')]\<rparr>)
      | None \<Rightarrow>
         (case raises w (trace w @ [Execute (''TRUNCATE TABLE [dbo].['' @ t @ '']'')]) Commit of
            Some e \<Rightarrow> (if e = ResourceWarning then Inr False else Inl e,
                   w\<lparr>trace := trace w @ [Execute (''TRUNCATE TABLE [dbo].['' @ t @ '']''), Commit]\<rparr>)
          | None \<Rightarrow> (Inr True,
                   w\<lparr>trace := trace w @ [Execute (''TRUNCATE TABLE [dbo].['' @ t @ '']''), Commit]\<rparr>)))"
  by (auto simp: clear_table_def execute_commit_def cursor_execute_def conn_commit_def
           split: option.splits exn.splits)

text \<open>
  Claim C6. When clearing the customers table does not succeed (the store raised on the
  statement or on its commit), the customer reconciliation ends with an exception, the exit
  when the clear reported failure, and has called the store for nothing but the clear: no
  insert is attempted.
\<close>

theorem failed_clear_stops_customers:
  assumes "fst (clear_table ''customers'' w) \<noteq> Inr True"
  shows "snd (update_customer_data w) = snd (clear_table ''customers'' w)
       \<and> fst (update_customer_data w)
           = (case fst (clear_table ''customers'' w) of
                Inl e \<Rightarrow> Inl e
              | Inr cleared \<Rightarrow>
                  Inl (SystemExit ''No update to customers table due to table clear failure.''))
       \<and> (trace (snd (update_customer_data w))
            = trace w @ [Execute ''TRUNCATE TABLE [dbo].[customers]'']
          \<or> trace (snd (update_customer_data w))
            = trace w @ [Execute ''TRUNCATE TABLE [dbo].[customers]'', Commit])"
  using assms
  by (auto simp: update_customer_data_def Let_def clear_table_cases split: option.splits if_splits)

theorem failed_clear_stops_customers_witness:
  "fst (clear_table ''customers'' refusing_world) \<noteq> Inr True
   \<and> snd (update_customer_data refusing_world) = snd (clear_table ''customers'' refusing_world)
   \<and> fst (update_customer_data refusing_world)
       = Inl (SystemExit ''No update to customers table due to table clear failure.'')
   \<and> trace (snd (update_customer_data refusing_world)) = [Execute ''TRUNCATE TABLE [dbo].[customers]'']"
proof -
  have c: "clear_table ''customers'' refusing_world
             = (Inr False, refusing_world\<lparr>trace := [Execute ''TRUNCATE TABLE [dbo].[customers]'']\<rparr>)"
    by (simp add: clear_table_cases refusing_world_def example_customers_world_def example_world_def)
  then have a: "fst (clear_table ''customers'' refusing_world) \<noteq> Inr True" by simp
  from failed_clear_stops_customers [OF a] a c show ?thesis by simp
qed


lemma then_do_Inr [simp]: "then_do (Inr u, w) f = f w"
  by (simp add: then_do_def)

lemma then_do_Inl [simp]: "then_do (Inl e, w) f = (Inl e, w)"
  by (simp add: then_do_def)

lemma except_ResourceWarning_Inr [simp]: "except_ResourceWarning (Inr u, w) = (Inr u, w)"
  by (simp add: except_ResourceWarning_def)

lemma execute_commit_quiet:
  "raises w = (\<lambda>h e. None) \<Longrightarrow>
   execute_commit s w = (Inr (), w\<lparr>trace := trace w @ [Execute s, Commit]\<rparr>)"
  by (simp add: execute_commit_def cursor_execute_def conn_commit_def)

lemma clear_table_quiet:
  "raises w = (\<lambda>h e. None) \<Longrightarrow>
   clear_table t w
     = (Inr True, w\<lparr>trace := trace w @ [Execute (''TRUNCATE TABLE [dbo].['' @ t @ '']''), Commit]\<rparr>)"
  by (simp add: clear_table_def execute_commit_quiet)

lemma read_quiet:
  "raises w = (\<lambda>h e. None) \<Longrightarrow>
   read_sql_tables_to_cache t w
     = (Inr (), w\<lparr>trace := trace w @ [Execute (select_query t)],
                  cache := (cache w)(t := answers w (trace w) (select_query t))\<rparr>)"
  by (simp add: read_sql_tables_to_cache_def cursor_execute_def)

lemma timestamp_quiet:
  "raises w = (\<lambda>h e. None) \<Longrightarrow>
   update_source_refresh_timestamp l w
     = (Inr (), w\<lparr>trace := trace w
          @ [Execute (''UPDATE [dbo].[UpdateTracking] SET ['' @ l @ ''] = '' @ dq
                        @ now w (trace w) @ dq), Commit]\<rparr>)"
  by (simp add: update_source_refresh_timestamp_def execute_commit_quiet)

lemma format_customer_ok:
  assumes "well_formed_customer c"
  shows "\<exists>d. format_customer_insert_data c = Inr d \<and> keys d = customer_columns
             \<and> has_columns customer_columns d"
  using assms
  by (auto simp: well_formed_customer_def format_customer_insert_data_def ex_bind_def
        dict_item_def Let_def keys_def customer_columns_def has_columns_def dict_get_def
        split: option.splits pyval.splits)

lemma customer_results:
  assumes "list_all well_formed_customer cs"
  shows "map format_customer_insert_data cs
           = map Inr (map (\<lambda>c. projr (format_customer_insert_data c)) cs)
         \<and> list_all (\<lambda>d. keys d = customer_columns \<and> has_columns customer_columns d)
             (map (\<lambda>c. projr (format_customer_insert_data c)) cs)"
  using assms
proof (induction cs)
  case Nil then show ?case by simp
next
  case (Cons c cs)
  from Cons.prems have "well_formed_customer c" by simp
  from format_customer_ok [OF this] obtain d where
    "format_customer_insert_data c = Inr d" "keys d = customer_columns"
    "has_columns customer_columns d" by blast
  with Cons show ?case by simp
qed

section \<open>The columns of the statements sent\<close>

lemma batch_column_insert_written:
  "batch_column_insert ks = map (\<lambda>column. ''['' @ column @ '']'') (written_columns ks)"
  by (induction ks) (auto simp: batch_column_insert_def written_columns_def)

lemma insert_statement_text:
  "insert_statement t (batch_column_insert ks) vals = single_insert_text t (written_columns ks) vals"
  by (simp add: insert_statement_def single_insert_text_def batch_column_insert_written)

lemma multi_row_insert_text:
  "multi_row_insert t ks rows = batch_insert_text t (written_columns ks) rows"
  by (simp add: multi_row_insert_def batch_header_def batch_insert_text_def
        batch_column_insert_written)

lemma execute_commit_trace:
  "trace (snd (execute_commit s w)) = trace w @ [Execute s]
   \<or> trace (snd (execute_commit s w)) = trace w @ [Execute s, Commit]"
  by (auto simp: execute_commit_def cursor_execute_def conn_commit_def split: option.splits)

lemma snd_except_ResourceWarning [simp]: "snd (except_ResourceWarning r) = snd r"
  by (cases r) (auto simp: except_ResourceWarning_def split: sum.splits exn.splits)

lemma insert_events:
  "\<exists>evs. trace (snd (insert_data_to_table t d w)) = trace w @ evs
         \<and> (\<forall>s. Execute s \<in> set evs \<longrightarrow>
               (\<exists>vals. length vals = length (written_columns (keys d))
                       \<and> s = single_insert_text t (written_columns (keys d)) vals))"
proof (cases "insert_columns_loop (keys d) (d, [], [])")
  case (Inl e)
  then have "trace (snd (insert_data_to_table t d w)) = trace w @ []"
    by (simp add: insert_data_to_table_def)
  then show ?thesis by (intro exI [of _ "[]"]) simp
next
  case (Inr r)
  obtain d1 ci vi where r: "r = (d1, ci, vi)" by (cases r)
  from insert_columns_loop_columns [of "keys d" d "[]" "[]" d1 ci vi] Inr r
  have ci: "ci = batch_column_insert (keys d)" and vi: "length vi = length (batch_column_insert (keys d))"
    by simp_all
  let ?s = "single_insert_text t (written_columns (keys d)) vi"
  have st: "insert_statement t ci vi = ?s" by (simp add: ci insert_statement_text)
  have sn: "snd (insert_data_to_table t d w) = snd (execute_commit ?s w)"
    using Inr r by (simp add: insert_data_to_table_def st)
  have len: "length vi = length (written_columns (keys d))"
    using vi by (simp add: batch_column_insert_written)
  from execute_commit_trace [of ?s w] show ?thesis
  proof
    assume "trace (snd (execute_commit ?s w)) = trace w @ [Execute ?s]"
    with sn len show ?thesis by (intro exI [of _ "[Execute ?s]"]) auto
  next
    assume "trace (snd (execute_commit ?s w)) = trace w @ [Execute ?s, Commit]"
    with sn len show ?thesis by (intro exI [of _ "[Execute ?s, Commit]"]) auto
  qed
qed

lemma flush_events:
  assumes "pending \<noteq> []"
      and "list_all (\<lambda>vals. length vals = length (written_columns cols)) pending"
  shows "\<exists>evs. trace (snd (flush (batch_header t cols @ concat (map row_line pending)) w))
                  = trace w @ evs
           \<and> (\<forall>s. Execute s \<in> set evs \<longrightarrow>
                 (\<exists>rows. list_all (\<lambda>vals. length vals = length (written_columns cols)) rows
                         \<and> s = batch_insert_text t (written_columns cols) rows))"
proof -
  let ?s = "batch_insert_text t (written_columns cols) pending"
  have sn: "snd (flush (batch_header t cols @ concat (map row_line pending)) w)
              = snd (execute_commit ?s w)"
    using slice_block [OF assms(1), of t cols] by (simp add: flush_def multi_row_insert_text)
  from execute_commit_trace [of ?s w] show ?thesis
  proof
    assume "trace (snd (execute_commit ?s w)) = trace w @ [Execute ?s]"
    with sn assms(2) show ?thesis by (intro exI [of _ "[Execute ?s]"]) auto
  next
    assume "trace (snd (execute_commit ?s w)) = trace w @ [Execute ?s, Commit]"
    with sn assms(2) show ?thesis by (intro exI [of _ "[Execute ?s, Commit]"]) auto
  qed
qed

lemma batch_loop_events:
  "count = length pending \<Longrightarrow>
   block = batch_header t cols @ concat (map row_line pending) \<Longrightarrow>
   list_all (\<lambda>vals. length vals = length (written_columns cols)) pending \<Longrightarrow>
   \<exists>evs. trace (snd (batch_loop t cols bs recs block count w)) = trace w @ evs
      \<and> (\<forall>s. Execute s \<in> set evs \<longrightarrow>
            (\<exists>rows. list_all (\<lambda>vals. length vals = length (written_columns cols)) rows
                    \<and> s = batch_insert_text t (written_columns cols) rows))
      \<and> (\<forall>block' count'. fst (batch_loop t cols bs recs block count w) = Inr (block', count') \<longrightarrow>
            (\<exists>pending'. count' = length pending'
                \<and> block' = batch_header t cols @ concat (map row_line pending')
                \<and> list_all (\<lambda>vals. length vals = length (written_columns cols)) pending'))"
proof (induction recs arbitrary: block count pending w)
  case Nil
  then show ?case by (intro exI [of _ "[]"]) auto
next
  case (Cons entry recs)
  show ?case
  proof (cases "batch_value_insert cols entry")
    case (Inl e)
    then show ?thesis by (intro exI [of _ "[]"]) simp
  next
    case (Inr v)
    from batch_value_insert_length [OF Inr]
    have lv: "length v = length (written_columns cols)"
      by (simp add: batch_column_insert_written)
    let ?pending1 = "pending @ [v]"
    let ?block1 = "block @ ''('' @ join '','' v @ ''),'' @ crlf"
    have b1: "?block1 = batch_header t cols @ concat (map row_line ?pending1)"
      using Cons.prems(2) by simp
    have ok1: "list_all (\<lambda>vals. length vals = length (written_columns cols)) ?pending1"
      using Cons.prems(3) lv by simp
    show ?thesis
    proof (cases "bs = 0")
      case True
      with Inr show ?thesis by (intro exI [of _ "[]"]) (simp add: Let_def)
    next
      case bs: False
      show ?thesis
      proof (cases "(count + 1) mod bs = 0")
        case False
        have step: "batch_loop t cols bs (entry # recs) block count w
                      = batch_loop t cols bs recs ?block1 (count + 1) w"
          using Inr bs False by (simp add: Let_def)
        have c1: "count + 1 = length ?pending1" using Cons.prems(1) by simp
        from Cons.IH [OF c1 b1 ok1, of w] show ?thesis unfolding step .
      next
        case True
        obtain r1 w1 where f: "flush ?block1 w = (r1, w1)" by (cases "flush ?block1 w")
        from flush_events [of ?pending1 cols t w] ok1 f b1
        obtain evs1 where e1: "trace w1 = trace w @ evs1"
          and q1: "\<forall>s. Execute s \<in> set evs1 \<longrightarrow>
                 (\<exists>rows. list_all (\<lambda>vals. length vals = length (written_columns cols)) rows
                         \<and> s = batch_insert_text t (written_columns cols) rows)"
          by auto
        show ?thesis
        proof (cases r1)
          case (Inl e)
          have "batch_loop t cols bs (entry # recs) block count w = (Inl e, w1)"
            using Inr bs True f Inl by (simp add: Let_def)
          with e1 q1 show ?thesis by (intro exI [of _ evs1]) simp
        next
          case r: (Inr u)
          have step: "batch_loop t cols bs (entry # recs) block count w
                      = batch_loop t cols bs recs (batch_header t cols) 0 w1"
            using Inr bs True f r by (simp add: Let_def)
          have "\<exists>evs. trace (snd (batch_loop t cols bs recs (batch_header t cols) 0 w1)) = trace w1 @ evs
      \<and> (\<forall>s. Execute s \<in> set evs \<longrightarrow>
            (\<exists>rows. list_all (\<lambda>vals. length vals = length (written_columns cols)) rows
                    \<and> s = batch_insert_text t (written_columns cols) rows))
      \<and> (\<forall>block' count'. fst (batch_loop t cols bs recs (batch_header t cols) 0 w1) = Inr (block', count') \<longrightarrow>
            (\<exists>pending'. count' = length pending'
                \<and> block' = batch_header t cols @ concat (map row_line pending')
                \<and> list_all (\<lambda>vals. length vals = length (written_columns cols)) pending'))"
            by (rule Cons.IH [of 0 "[]"]) simp_all
          then obtain evs2 where e2: "trace (snd (batch_loop t cols bs recs (batch_header t cols) 0 w1)) = trace w1 @ evs2"
            and q2: "\<forall>s. Execute s \<in> set evs2 \<longrightarrow>
            (\<exists>rows. list_all (\<lambda>vals. length vals = length (written_columns cols)) rows
                    \<and> s = batch_insert_text t (written_columns cols) rows)"
            and p2: "\<forall>block' count'. fst (batch_loop t cols bs recs (batch_header t cols) 0 w1) = Inr (block', count') \<longrightarrow>
            (\<exists>pending'. count' = length pending'
                \<and> block' = batch_header t cols @ concat (map row_line pending')
                \<and> list_all (\<lambda>vals. length vals = length (written_columns cols)) pending')"
            by blast
          show ?thesis
            unfolding step
            using e1 e2 q1 q2 p2 by (intro exI [of _ "evs1 @ evs2"]) auto
        qed
      qed
    qed
  qed
qed

lemma insert_batch_events:
  "\<exists>evs. trace (snd (insert_data_to_table_batch t (Inr first # rest) bs w)) = trace w @ evs
      \<and> (\<forall>s. Execute s \<in> set evs \<longrightarrow>
            (\<exists>rows. list_all (\<lambda>vals. length vals = length (written_columns (keys first))) rows
                    \<and> s = batch_insert_text t (written_columns (keys first)) rows))"
proof -
  let ?cols = "keys first"
  let ?loop = "batch_loop t ?cols bs (Inr first # rest) (batch_header t ?cols) 0 w"
  obtain r1 w1 where l: "?loop = (r1, w1)" by (cases ?loop)
  have "\<exists>evs. trace (snd ?loop) = trace w @ evs
      \<and> (\<forall>s. Execute s \<in> set evs \<longrightarrow>
            (\<exists>rows. list_all (\<lambda>vals. length vals = length (written_columns ?cols)) rows
                    \<and> s = batch_insert_text t (written_columns ?cols) rows))
      \<and> (\<forall>block' count'. fst ?loop = Inr (block', count') \<longrightarrow>
            (\<exists>pending'. count' = length pending'
                \<and> block' = batch_header t ?cols @ concat (map row_line pending')
                \<and> list_all (\<lambda>vals. length vals = length (written_columns ?cols)) pending'))"
    by (rule batch_loop_events [of 0 "[]"]) simp_all
  then obtain evs1 where e1: "trace w1 = trace w @ evs1"
    and q1: "\<forall>s. Execute s \<in> set evs1 \<longrightarrow>
            (\<exists>rows. list_all (\<lambda>vals. length vals = length (written_columns ?cols)) rows
                    \<and> s = batch_insert_text t (written_columns ?cols) rows)"
    and p1: "\<forall>block' count'. r1 = Inr (block', count') \<longrightarrow>
            (\<exists>pending'. count' = length pending'
                \<and> block' = batch_header t ?cols @ concat (map row_line pending')
                \<and> list_all (\<lambda>vals. length vals = length (written_columns ?cols)) pending')"
    using l by auto
  show ?thesis
  proof (cases r1)
    case (Inl e)
    with l have "insert_data_to_table_batch t (Inr first # rest) bs w = (Inl e, w1)"
      by (simp add: insert_data_to_table_batch_def Let_def)
    with e1 q1 show ?thesis by (intro exI [of _ evs1]) simp
  next
    case (Inr bc)
    obtain block' count' where bc: "bc = (block', count')" by (cases bc)
    from p1 Inr bc obtain pending' where c: "count' = length pending'"
      and b: "block' = batch_header t ?cols @ concat (map row_line pending')"
      and ok: "list_all (\<lambda>vals. length vals = length (written_columns ?cols)) pending'"
      by blast
    show ?thesis
    proof (cases "count' > 0")
      case False
      with l Inr bc have "insert_data_to_table_batch t (Inr first # rest) bs w = (Inr (), w1)"
        by (simp add: insert_data_to_table_batch_def Let_def)
      with e1 q1 show ?thesis by (intro exI [of _ evs1]) simp
    next
      case True
      with l Inr bc have s: "insert_data_to_table_batch t (Inr first # rest) bs w = flush block' w1"
        by (simp add: insert_data_to_table_batch_def Let_def)
      from True c have ne: "pending' \<noteq> []" by auto
      from flush_events [OF ne ok, of t w1] b
      obtain evs2 where e2: "trace (snd (flush block' w1)) = trace w1 @ evs2"
        and q2: "\<forall>s. Execute s \<in> set evs2 \<longrightarrow>
                 (\<exists>rows. list_all (\<lambda>vals. length vals = length (written_columns ?cols)) rows
                         \<and> s = batch_insert_text t (written_columns ?cols) rows)"
        by auto
      show ?thesis
        unfolding s using e1 e2 q1 q2 by (intro exI [of _ "evs1 @ evs2"]) auto
    qed
  qed
qed

lemma insert_batch_no_record:
  "record_list = [] \<or> (\<exists>x rest. record_list = Inl x # rest) \<Longrightarrow>
   snd (insert_data_to_table_batch t record_list bs w) = w"
  by (auto simp: insert_data_to_table_batch_def)

lemma written_columns_without:
  "''ID'' \<notin> set (written_columns columns_list)"
  "''datecreated'' \<notin> set (written_columns columns_list)"
  by (simp_all add: written_columns_def)

text \<open>
  Claim C10. Whatever the store does, every statement that the single-row insert or the
  batched insert hands to it is an insert whose column list is that of the record (of the
  first record, for a batch) without \<^verbatim>\<open>ID\<close> and \<^verbatim>\<open>datecreated\<close>, and whose value tuples have
  one value per column of that list; a batch that does not start with a record hands over
  nothing. So neither column is ever written, also for a record that has these keys
  (\<open>written_columns_without\<close>).
\<close>

theorem ID_and_datecreated_never_written:
  "(\<forall>s. Execute s \<in> set (drop (length (trace w))
                             (trace (snd (insert_data_to_table table_name record_dict w))))
       \<longrightarrow> (\<exists>vals. length vals = length (written_columns (keys record_dict))
                   \<and> s = single_insert_text table_name (written_columns (keys record_dict)) vals))
   \<and> (\<forall>s. Execute s \<in> set (drop (length (trace w))
                             (trace (snd (insert_data_to_table_batch table_name record_list
                                            tranaction_block_size w))))
       \<longrightarrow> (\<exists>first rest rows. record_list = Inr first # rest
                   \<and> list_all (\<lambda>vals. length vals = length (written_columns (keys first))) rows
                   \<and> s = batch_insert_text table_name (written_columns (keys first)) rows))"
proof (intro conjI allI impI)
  fix s
  assume a: "Execute s \<in> set (drop (length (trace w))
                             (trace (snd (insert_data_to_table table_name record_dict w))))"
  from insert_events [of table_name record_dict w] obtain evs where
    e: "trace (snd (insert_data_to_table table_name record_dict w)) = trace w @ evs" and
    q: "\<forall>s. Execute s \<in> set evs \<longrightarrow>
               (\<exists>vals. length vals = length (written_columns (keys record_dict))
                       \<and> s = single_insert_text table_name (written_columns (keys record_dict)) vals)"
    by blast
  from a e have "Execute s \<in> set evs" by simp
  with q show "\<exists>vals. length vals = length (written_columns (keys record_dict))
                   \<and> s = single_insert_text table_name (written_columns (keys record_dict)) vals"
    by blast
next
  fix s
  assume a: "Execute s \<in> set (drop (length (trace w))
                             (trace (snd (insert_data_to_table_batch table_name record_list
                                            tranaction_block_size w))))"
  show "\<exists>first rest rows. record_list = Inr first # rest
                   \<and> list_all (\<lambda>vals. length vals = length (written_columns (keys first))) rows
                   \<and> s = batch_insert_text table_name (written_columns (keys first)) rows"
  proof (cases record_list)
    case Nil
    with a insert_batch_no_record [of record_list table_name tranaction_block_size w]
    show ?thesis by simp
  next
    case (Cons x rest)
    show ?thesis
    proof (cases x)
      case (Inl e)
      with Cons a insert_batch_no_record [of record_list table_name tranaction_block_size w]
      show ?thesis by simp
    next
      case (Inr first)
      from insert_batch_events [of table_name first rest tranaction_block_size w] obtain evs where
        e: "trace (snd (insert_data_to_table_batch table_name (Inr first # rest)
                          tranaction_block_size w)) = trace w @ evs" and
        q: "\<forall>s. Execute s \<in> set evs \<longrightarrow>
            (\<exists>rows. list_all (\<lambda>vals. length vals = length (written_columns (keys first))) rows
                    \<and> s = batch_insert_text table_name (written_columns (keys first)) rows)"
        by blast
      from a e Cons Inr have "Execute s \<in> set evs" by simp
      with q Cons Inr show ?thesis by blast
    qed
  qed
qed


theorem ID_and_datecreated_never_written_witness:
  "Execute (''INSERT INTO [dbo].[switch] ([name]) VALUES('' @ sq @ ''sw1'' @ sq @ '')'')
     \<in> set (drop (length (trace example_world))
                (trace (snd (insert_data_to_table ''switch'' example_switch_record example_world))))
   \<and> (\<exists>vals. length vals = length (written_columns (keys example_switch_record))
         \<and> ''INSERT INTO [dbo].[switch] ([name]) VALUES('' @ sq @ ''sw1'' @ sq @ '')''
             = single_insert_text ''switch'' (written_columns (keys example_switch_record)) vals)
   \<and> Execute (''INSERT INTO [dbo].[switch] ([name]) VALUES'' @ crlf @ ''('' @ sq @ ''sw1'' @ sq @ '')'')
     \<in> set (drop (length (trace example_world))
                (trace (snd (insert_data_to_table_batch ''switch'' [Inr example_switch_record] 250
                               example_world))))
   \<and> (\<exists>first rest rows. [Inr example_switch_record] = Inr first # rest
         \<and> list_all (\<lambda>vals. length vals = length (written_columns (keys first))) rows
         \<and> ''INSERT INTO [dbo].[switch] ([name]) VALUES'' @ crlf @ ''('' @ sq @ ''sw1'' @ sq @ '')''
             = batch_insert_text ''switch'' (written_columns (keys first)) rows)"
proof -
  have m1: "Execute (''INSERT INTO [dbo].[switch] ([name]) VALUES('' @ sq @ ''sw1'' @ sq @ '')'')
     \<in> set (drop (length (trace example_world))
                (trace (snd (insert_data_to_table ''switch'' example_switch_record example_world))))"
    by (simp add: insert_data_to_table_def example_world_def example_switch_record_def
        cursor_execute_def conn_commit_def execute_commit_def except_ResourceWarning_def
        keys_def insert_statement_def dict_get_def)
  have m2: "Execute (''INSERT INTO [dbo].[switch] ([name]) VALUES'' @ crlf @ ''('' @ sq @ ''sw1'' @ sq @ '')'')
     \<in> set (drop (length (trace example_world))
                (trace (snd (insert_data_to_table_batch ''switch'' [Inr example_switch_record] 250
                               example_world))))"
    by (simp add: insert_data_to_table_batch_def example_world_def example_switch_record_def
        cursor_execute_def conn_commit_def execute_commit_def except_ResourceWarning_def
        flush_def keys_def batch_header_def batch_column_insert_def dict_get_def slice_to_def)
  from ID_and_datecreated_never_written [of example_world "''switch''" example_switch_record
                  "[Inr example_switch_record]" 250] m1 m2
  show ?thesis by blast
qed

section \<open>The statements of the customer family\<close>

lemma substring_single: "substring [c] s \<longleftrightarrow> c \<in> set s"
  by (induction s) auto

lemma replace_sq_no_quote: "CHR 0x27 \<notin> set s \<Longrightarrow> replace_sq s = s"
  by (induction s) (auto simp: replace_sq_def)

lemma customer_row_formatted:
  assumes "well_formed_customer c"
  shows "row_values customer_columns (projr (format_customer_insert_data c)) = customer_row c"
  using assms
  by (auto simp: well_formed_customer_def format_customer_insert_data_def ex_bind_def
        dict_item_def Let_def customer_columns_def row_values_def customer_row_def
        dict_get_def substring_single replace_sq_no_quote
        split: option.splits pyval.splits)

lemma customer_rows_formatted:
  "list_all well_formed_customer cs \<Longrightarrow>
   map (row_values customer_columns) (map (\<lambda>c. projr (format_customer_insert_data c)) cs)
     = map customer_row cs"
  by (induction cs) (simp_all add: customer_row_formatted)

lemma flushes_text:
  "flushes t cols batches
     = concat (map (\<lambda>rows. [Execute (batch_insert_text t (written_columns cols) rows), Commit]) batches)"
  by (simp add: flushes_def multi_row_insert_text)

lemma update_customer_data_quiet:
  assumes "raises w = (\<lambda>h e. None)"
      and "list_all well_formed_customer (customers w)"
  shows "fst (update_customer_data w) = Inr ()
       \<and> (\<exists>stamp.
            trace (snd (update_customer_data w))
              = trace w
                @ [Execute ''TRUNCATE TABLE [dbo].[customers]'', Commit]
                @ flushes ''customers'' customer_columns
                    (chunks 250 (map customer_row (customers w)))
                @ (if customers w = [] then []
                   else [Execute (select_query ''customers''),
                         Execute (''UPDATE [dbo].[UpdateTracking] SET [customers] = '' @ dq
                                    @ stamp @ dq),
                         Commit]))"
proof -
  let ?ds = "map (\<lambda>c. projr (format_customer_insert_data c)) (customers w)"
  let ?w1 = "w\<lparr>trace := trace w @ [Execute ''TRUNCATE TABLE [dbo].[customers]'', Commit]\<rparr>"
  have res: "customer_lookup_async w = map Inr ?ds"
    and okd: "list_all (\<lambda>d. keys d = customer_columns \<and> has_columns customer_columns d) ?ds"
    using customer_results [OF assms(2)] by (simp_all add: customer_lookup_async_def)
  have rows: "map (row_values customer_columns) ?ds = map customer_row (customers w)"
    by (rule customer_rows_formatted [OF assms(2)])
  have clear: "clear_table ''customers'' w = (Inr True, ?w1)"
    using clear_table_quiet [OF assms(1), of "''customers''"] by simp
  show ?thesis
  proof (cases "customers w = []")
    case True
    then have "update_customer_data w = (Inr (), ?w1)"
      by (simp add: update_customer_data_def Let_def clear customer_lookup_async_def)
    with True show ?thesis by simp
  next
    case False
    then have ne: "?ds \<noteq> []" by simp
    have hdk: "keys (hd ?ds) = customer_columns"
      using okd ne by (cases ?ds) auto
    have okh: "list_all (has_columns (keys (hd ?ds))) ?ds"
      using okd unfolding hdk by (simp add: list_all_iff)
    have q1: "raises ?w1 = (\<lambda>h e. None)" using assms(1) by simp
    let ?fl = "flushes ''customers'' customer_columns (chunks 250 (map customer_row (customers w)))"
    let ?w2 = "?w1\<lparr>trace := trace ?w1 @ ?fl\<rparr>"
    have batch: "insert_data_to_table_batch ''customers'' (map Inr ?ds) 250 ?w1 = (Inr (), ?w2)"
      using insert_batch_chunks [OF q1 _ ne okh, of 250 "''customers''"] unfolding hdk rows by simp
    have q2: "raises ?w2 = (\<lambda>h e. None)" using assms(1) by simp
    let ?w3 = "?w2\<lparr>trace := trace ?w2 @ [Execute (select_query ''customers'')],
                  cache := (cache ?w2)(''customers'' := answers ?w2 (trace ?w2) (select_query ''customers''))\<rparr>"
    have read: "read_sql_tables_to_cache ''customers'' ?w2 = (Inr (), ?w3)"
      by (rule read_quiet [OF q2])
    have q3: "raises ?w3 = (\<lambda>h e. None)" using assms(1) by simp
    have stamp: "update_source_refresh_timestamp ''customers'' ?w3
        = (Inr (), ?w3\<lparr>trace := trace ?w3
          @ [Execute (''UPDATE [dbo].[UpdateTracking] SET [customers] = '' @ dq
                        @ now ?w3 (trace ?w3) @ dq), Commit]\<rparr>)"
      using timestamp_quiet [OF q3, of "''customers''"] by simp
    have run: "update_customer_data w
        = (Inr (), ?w3\<lparr>trace := trace ?w3
          @ [Execute (''UPDATE [dbo].[UpdateTracking] SET [customers] = '' @ dq
                        @ now ?w3 (trace ?w3) @ dq), Commit]\<rparr>)"
      unfolding update_customer_data_def Let_def clear res
      using False by (simp only: batch read stamp then_do_Inr except_ResourceWarning_Inr
                        prod.case sum.case simp_thms if_True if_False length_map length_greater_0_conv)
    show ?thesis
      unfolding run using False
      by (auto intro!: exI [of _ "now ?w3 (trace ?w3)"])
  qed
qed





section \<open>Updates of cached stacks\<close>

lemma dict_set_new: "k \<notin> set (keys d) \<Longrightarrow> dict_set k v d = d @ [(k, v)]"
  by (induction d) (auto simp: dict_set_def keys_def)

lemma stacks_columns_update_result:
  "distinct cols \<Longrightarrow> set cols \<inter> set (keys acc) = {} \<Longrightarrow>
   list_all (\<lambda>c. dict_get f c \<noteq> None \<and> dict_get e c \<noteq> None) cols \<Longrightarrow>
   stacks_columns_update cols f e acc
     = Inr (acc @ map (\<lambda>c. (c, the (dict_get f c))) (filter (\<lambda>c. dict_get f c \<noteq> dict_get e c) cols))"
proof (induction cols arbitrary: acc)
  case Nil then show ?case by simp
next
  case (Cons c cols)
  from Cons.prems obtain a b where a: "dict_get f c = Some a" and b: "dict_get e c = Some b"
    by auto
  have new: "c \<notin> set (keys acc)" using Cons.prems by auto
  show ?case
  proof (cases "a = b")
    case True
    have "stacks_columns_update cols f e acc
     = Inr (acc @ map (\<lambda>c. (c, the (dict_get f c))) (filter (\<lambda>c. dict_get f c \<noteq> dict_get e c) cols))"
      using Cons.prems by (intro Cons.IH) auto
    with True a b show ?thesis by (simp add: ex_bind_def dict_item_def)
  next
    case False
    have "stacks_columns_update cols f e (acc @ [(c, a)])
     = Inr ((acc @ [(c, a)]) @ map (\<lambda>c. (c, the (dict_get f c))) (filter (\<lambda>c. dict_get f c \<noteq> dict_get e c) cols))"
      using Cons.prems by (intro Cons.IH) (auto simp: keys_def)
    with False a b new show ?thesis by (simp add: ex_bind_def dict_item_def dict_set_new)
  qed
qed

lemma stacks_data_formatted_columns:
  assumes "stacks_data_formatted record = Inr f"
  shows "list_all (\<lambda>c. dict_get f c \<noteq> None) stack_columns"
    and "\<exists>v. dict_item record ''stack'' = Inr v \<and> dict_get record ''stack'' = Some v"
  using assms
  by (auto simp: stacks_data_formatted_def ex_bind_def dict_item_def stack_columns_def dict_get_def
           split: option.splits)

lemma stack_updates_found:
  assumes "stacks_data_formatted record = Inr formatted"
      and "list_all (\<lambda>column. dict_get table_entry column \<noteq> None) stack_columns"
  shows "stacks_columns_update stack_columns formatted table_entry []
           = Inr (map (\<lambda>column. (column, the (dict_get formatted column)))
                    (differing_columns formatted table_entry))"
proof -
  have "list_all (\<lambda>c. dict_get formatted c \<noteq> None \<and> dict_get table_entry c \<noteq> None) stack_columns"
    using stacks_data_formatted_columns(1) [OF assms(1)] assms(2) by (simp add: list_all_iff)
  then have "stacks_columns_update stack_columns formatted table_entry []
     = Inr ([] @ map (\<lambda>c. (c, the (dict_get formatted c)))
               (filter (\<lambda>c. dict_get formatted c \<noteq> dict_get table_entry c) stack_columns))"
    by (intro stacks_columns_update_result) (simp_all add: stack_columns_def keys_def)
  then show ?thesis by (simp add: differing_columns_def)
qed

lemma update_stack_record_found:
  assumes "stacks_data_formatted record = Inr formatted"
      and "search_rows (cache w ''stacks'') ''Stack'' (dict_get record ''stack'')
             = Inr (table_entry # others)"
      and "list_all (\<lambda>column. dict_get table_entry column \<noteq> None) stack_columns"
  shows "update_stack_record record w
           = (if differing_columns formatted table_entry = [] then (Inr (), w)
              else update_data_table ''stacks''
                     (map (\<lambda>column. (column, the (dict_get formatted column)))
                        (differing_columns formatted table_entry))
                     (''stack = '' @ sq @ py_str (the (dict_get record ''stack'')) @ sq) w)"
proof -
  from stacks_data_formatted_columns(2) [OF assms(1)] obtain v where
    v: "dict_item record ''stack'' = Inr v" "dict_get record ''stack'' = Some v" by blast
  show ?thesis
    using assms(2) v
    by (simp add: update_stack_record_def assms(1) stack_updates_found [OF assms(1,3)])
qed

(* steady *)
lemma steady_refl [simp]: "steady w w"
  by (simp add: steady_def stacks_updates_def)

lemma steady_trans: "steady w w1 \<Longrightarrow> steady w1 w2 \<Longrightarrow> steady w w2"
proof -
  assume a: "steady w w1" and b: "steady w1 w2"
  from a obtain e1 where e1: "trace w1 = trace w @ e1" "stacks_updates e1 = []"
    unfolding steady_def by (metis append_take_drop_id)
  from b obtain e2 where e2: "trace w2 = trace w1 @ e2" "stacks_updates e2 = []"
    unfolding steady_def by (metis append_take_drop_id)
  from a b e1 e2 show ?thesis
    by (simp add: steady_def stacks_updates_def)
qed

lemma steady_append:
  "stacks_updates es = [] \<Longrightarrow> steady w (w\<lparr>trace := trace w @ es\<rparr>)"
  by (simp add: steady_def)

lemma steady_cursor_execute:
  "\<not> prefix ''UPDATE [dbo].[stacks]'' s \<Longrightarrow> steady w (snd (cursor_execute s w))"
  by (simp add: cursor_execute_def steady_def stacks_updates_def)

lemma steady_conn_commit: "steady w (snd (conn_commit w))"
  by (simp add: conn_commit_def steady_def stacks_updates_def)

lemma steady_execute_commit:
  "\<not> prefix ''UPDATE [dbo].[stacks]'' s \<Longrightarrow> steady w (snd (execute_commit s w))"
proof -
  assume n: "\<not> prefix ''UPDATE [dbo].[stacks]'' s"
  show ?thesis
  proof (cases "cursor_execute s w")
    case (Pair r w1)
    with steady_cursor_execute [OF n, of w] have s1: "steady w w1" by simp
    show ?thesis
    proof (cases r)
      case (Inl e)
      with Pair s1 show ?thesis by (simp add: execute_commit_def)
    next
      case (Inr u)
      with Pair have "snd (execute_commit s w) = snd (conn_commit w1)"
        by (simp add: execute_commit_def)
      with steady_trans [OF s1 steady_conn_commit] show ?thesis by simp
    qed
  qed
qed

lemma steady_insert: "steady w (snd (insert_data_to_table t d w))"
  by (auto simp: insert_data_to_table_def insert_statement_def split: sum.splits
           intro!: steady_execute_commit)

lemma select_not_stacks_update: "\<not> prefix ''UPDATE [dbo].[stacks]'' (select_query t)"
  by (simp add: select_query_def)

lemma snd_read:
  "snd (read_sql_tables_to_cache t w)
     = (case raises w (trace w) (Execute (select_query t)) of
          Some e \<Rightarrow> w\<lparr>trace := trace w @ [Execute (select_query t)]\<rparr>
        | None \<Rightarrow> w\<lparr>trace := trace w @ [Execute (select_query t)],
                      cache := (cache w)(t := answers w (trace w) (select_query t))\<rparr>)"
proof (cases "raises w (trace w) (Execute (select_query t))")
  case None
  then show ?thesis by (simp add: read_sql_tables_to_cache_def cursor_execute_def)
next
  case (Some e)
  then show ?thesis
    by (cases e) (simp_all add: read_sql_tables_to_cache_def cursor_execute_def)
qed

lemma steady_read: "t \<noteq> ''stacks'' \<Longrightarrow> steady w (snd (read_sql_tables_to_cache t w))"
  using select_not_stacks_update [of t]
  by (simp add: snd_read steady_def stacks_updates_def split: option.splits)

lemma steady_timestamp: "steady w (snd (update_source_refresh_timestamp ''stacks'' w))"
  by (auto simp: update_source_refresh_timestamp_def intro!: steady_execute_commit)

lemma steady_then_do:
  "steady w (snd r) \<Longrightarrow> (\<And>w1. steady w1 (snd (f w1))) \<Longrightarrow> steady w (snd (then_do r f))"
  by (cases r; cases "fst r") (auto intro: steady_trans)

lemma steady_webs_loop: "steady w (snd (webs_loop webs_list webpoolid w))"
proof (induction webs_list arbitrary: w)
  case Nil then show ?case by simp
next
  case (Cons web webs_list)
  show ?case
    by (auto split: sum.splits intro!: steady_then_do Cons.IH simp: steady_insert)
qed

lemma steady_resolve_webpoolid: "steady w (snd (resolve_webpoolid record location w))"
proof -
  let ?fmt = "ex_bind (dict_item record (location @ ''_webpool_name'')) (\<lambda>name.
           ex_bind (dict_item record ''stack'') (\<lambda>stack.
           Inr [(''name'', name), (''stackid'', PStr (py_str stack))]))"
  let ?search = "search_rows (cache w ''webpools'') ''name''
                 (dict_get record (location @ ''_webpool_name''))"
  show ?thesis
  proof (cases ?fmt)
    case (Inl e)
    then show ?thesis by (simp add: resolve_webpoolid_def)
  next
    case fmt: (Inr d)
    show ?thesis
    proof (cases ?search)
      case (Inl e)
      with fmt show ?thesis by (simp add: resolve_webpoolid_def)
    next
      case found: (Inr search_webpools_table)
      show ?thesis
      proof (cases "search_webpools_table = []")
        case False
        with fmt found show ?thesis by (simp add: resolve_webpoolid_def)
      next
        case True
        obtain q w1 where x: "except_ResourceWarning
                        (then_do (insert_data_to_table ''webpools'' d w)
                           (read_sql_tables_to_cache ''webpools'')) = (q, w1)"
          by (cases "except_ResourceWarning
                        (then_do (insert_data_to_table ''webpools'' d w)
                           (read_sql_tables_to_cache ''webpools''))")
        have "steady w (snd (except_ResourceWarning
                        (then_do (insert_data_to_table ''webpools'' d w)
                           (read_sql_tables_to_cache ''webpools''))))"
          by (simp only: snd_except_ResourceWarning)
             (intro steady_then_do steady_insert steady_read, simp)
        with x have "steady w w1" by simp
        with fmt found True x show ?thesis
          by (cases q) (simp_all add: resolve_webpoolid_def)
      qed
    qed
  qed
qed

lemma steady_webpool: "steady w (snd (update_webpool_location record location w))"
proof (cases "resolve_webpoolid record location w")
  case (Pair r w1)
  with steady_resolve_webpoolid [of w "record" location] have s1: "steady w w1" by simp
  have s2: "steady w1 (snd (then_do (webs_loop l i w1) (read_sql_tables_to_cache ''webs'')))" for l i
    by (auto intro!: steady_then_do steady_webs_loop steady_read)
  show ?thesis
    using Pair s1 steady_trans [OF s1 s2]
    by (auto simp: update_webpool_location_def split: sum.splits)
qed

lemma update_stack_record_unchanged:
  "stack_unchanged (cache w ''stacks'') record \<Longrightarrow> update_stack_record record w = (Inr (), w)"
proof -
  assume u: "stack_unchanged (cache w ''stacks'') record"
  then obtain f e others where
    f: "stacks_data_formatted record = Inr f" and
    s: "search_rows (cache w ''stacks'') ''Stack'' (dict_get record ''stack'') = Inr (e # others)" and
    c: "list_all (\<lambda>column. dict_get e column \<noteq> None \<and> dict_get f column = dict_get e column) stack_columns"
    by (auto simp: stack_unchanged_def split: sum.splits list.splits)
  from c have c1: "list_all (\<lambda>column. dict_get e column \<noteq> None) stack_columns"
    by (simp add: list_all_iff)
  from c have d: "differing_columns f e = []"
    by (auto simp: differing_columns_def list_all_iff filter_empty_conv)
  show ?thesis using update_stack_record_found [OF f s c1] d by simp
qed

lemma steady_entry:
  "stack_unchanged (cache w ''stacks'') record \<Longrightarrow> steady w (snd (update_stack_entry record w))"
  by (auto simp: update_stack_entry_def update_stack_record_unchanged
           intro!: steady_then_do steady_webpool)

lemma steady_loop:
  "list_all (stack_unchanged (cache w ''stacks'')) records \<Longrightarrow>
   steady w (snd (update_stack_loop records w))"
proof (induction records arbitrary: w)
  case Nil then show ?case by simp
next
  case (Cons r0 records)
  obtain r w1 where e: "update_stack_entry r0 w = (r, w1)" by (cases "update_stack_entry r0 w")
  from Cons.prems steady_entry [of w r0] e have s1: "steady w w1" by simp
  then have "cache w1 ''stacks'' = cache w ''stacks''" by (simp add: steady_def)
  with Cons.prems have "list_all (stack_unchanged (cache w1 ''stacks'')) records" by simp
  from Cons.IH [OF this] have s2: "steady w1 (snd (update_stack_loop records w1))" .
  show ?case
    using e s1 steady_trans [OF s1 s2] by (cases r) auto
qed


lemma search_rows_filter:
  "list_all (\<lambda>row. dict_get row key \<noteq> None) rows \<Longrightarrow>
   search_rows rows key (Some x) = Inr (filter (\<lambda>row. dict_get row key = Some x) rows)"
  by (induction rows) auto

lemma find_filter_Some: "find P xs = Some e \<Longrightarrow> \<exists>others. filter P xs = e # others"
  by (induction xs) (auto split: if_splits)

lemma find_filter_None: "find P xs = None \<Longrightarrow> filter P xs = []"
  by (induction xs) (auto split: if_splits)

lemma formatted_of_record:
  "stack_record_ok rows record \<Longrightarrow>
   stacks_data_formatted record
     = Inr [(''Stack'', PStr (py_str (the (dict_get record ''stack'')))),
            (''locallocation'', the (dict_get record ''local_location'')),
            (''prodlocation'', the (dict_get record ''prod_location'')),
            (''remotelocation'', the (dict_get record ''remote_location''))]"
  by (auto simp: stack_record_ok_def stacks_data_formatted_def ex_bind_def dict_item_def)

lemma differing_columns_differences:
  assumes "stack_record_ok rows record" and "stacks_data_formatted record = Inr f"
  shows "differing_columns f e = map fst (stack_differences record e)"
proof -
  from assms(1) obtain a b c where
    "dict_get record ''local_location'' = Some a" "dict_get record ''prod_location'' = Some b"
    "dict_get record ''remote_location'' = Some c"
    by (auto simp: stack_record_ok_def)
  with formatted_of_record [OF assms(1)] assms(2) show ?thesis
    by (auto simp: differing_columns_def stack_columns_def stack_differences_def
          mutable_stack_columns_def dict_get_def)
qed

lemma map_of_graph: "c \<in> set cols \<Longrightarrow> map_of (map (\<lambda>c. (c, h c)) cols) c = Some (h c)"
  by (induction cols) auto

lemma update_statement_graph:
  "update_statement t (map (\<lambda>c. (c, h c)) cols) wh
     = ''UPDATE [dbo].['' @ t @ '']'' @ crlf @ ''SET ''
       @ join '','' (map (\<lambda>c. ''['' @ c @ ''] = '' @ sq @ py_str (h c) @ sq @ crlf) cols)
       @ ''WHERE '' @ wh"
proof -
  have k: "keys (map (\<lambda>c. (c, h c)) cols) = cols"
    by (simp add: keys_def comp_def)
  have eq: "map (\<lambda>column. ''['' @ column @ ''] = '' @ sq
                 @ py_str (the (dict_get (map (\<lambda>c. (c, h c)) cols) column)) @ sq @ crlf) cols
          = map (\<lambda>c. ''['' @ c @ ''] = '' @ sq @ py_str (h c) @ sq @ crlf) cols"
    by (rule map_cong) (simp_all add: dict_get_def map_of_graph)
  show ?thesis
    unfolding update_statement_def k eq by (rule refl)
qed

lemma stacks_update_text_eq:
  assumes "stack_record_ok rows record" and "stacks_data_formatted record = Inr f"
  shows "update_statement ''stacks''
           (map (\<lambda>column. (column, the (dict_get f column))) (differing_columns f e))
           (''stack = '' @ sq @ py_str (the (dict_get record ''stack'')) @ sq)
         = stacks_update_text record (stack_differences record e)"
proof -
  have f: "\<forall>(column, field) \<in> set mutable_stack_columns.
             the (dict_get f column) = the (dict_get record field)"
    using formatted_of_record [OF assms(1)] assms(2)
    by (auto simp: mutable_stack_columns_def dict_get_def)
  have mem: "the (dict_get f a) = the (dict_get record b)"
    if "(a, b) \<in> set (stack_differences record e)" for a b
  proof -
    from that have "(a, b) \<in> set mutable_stack_columns"
      by (simp add: stack_differences_def)
    from bspec [OF f this] show ?thesis by simp
  qed
  have eq: "map (\<lambda>c. ''['' @ c @ ''] = '' @ sq @ py_str (the (dict_get f c)) @ sq @ crlf)
            (map fst (stack_differences record e))
          = map (\<lambda>(column, field). ''['' @ column @ ''] = '' @ sq
                                    @ py_str (the (dict_get record field)) @ sq @ crlf)
              (stack_differences record e)"
    unfolding map_map by (rule map_cong) (auto simp: mem)
  show ?thesis
    unfolding update_statement_graph differing_columns_differences [OF assms] eq
      stacks_update_text_def
    by simp
qed

lemma cached_stack_search:
  assumes "stack_record_ok rows record"
  shows "cached_stack rows record = Some e \<Longrightarrow>
           \<exists>others. search_rows rows ''Stack'' (dict_get record ''stack'') = Inr (e # others)"
    and "cached_stack rows record = None \<Longrightarrow>
           search_rows rows ''Stack'' (dict_get record ''stack'') = Inr []"
proof -
  from assms obtain v where v: "dict_get record ''stack'' = Some v"
    by (auto simp: stack_record_ok_def)
  from assms have rows: "list_all (\<lambda>row. dict_get row ''Stack'' \<noteq> None) rows"
    by (simp add: stack_record_ok_def)
  show "cached_stack rows record = Some e \<Longrightarrow>
           \<exists>others. search_rows rows ''Stack'' (dict_get record ''stack'') = Inr (e # others)"
    unfolding cached_stack_def v search_rows_filter [OF rows] by (auto dest: find_filter_Some)
  show "cached_stack rows record = None \<Longrightarrow>
           search_rows rows ''Stack'' (dict_get record ''stack'') = Inr []"
    unfolding cached_stack_def v search_rows_filter [OF rows] by (auto dest: find_filter_None)
qed

lemma has_stack_columns_list:
  "has_stack_columns e \<Longrightarrow> list_all (\<lambda>column. dict_get e column \<noteq> None) stack_columns"
  by (simp add: has_stack_columns_def mutable_stack_columns_def stack_columns_def)

lemma update_stack_record_cached:
  assumes "stack_record_ok (cache w ''stacks'') record"
      and "cached_stack (cache w ''stacks'') record = Some table_entry"
      and "has_stack_columns table_entry"
  shows "update_stack_record record w
           = (if stack_differences record table_entry = [] then (Inr (), w)
              else except_ResourceWarning
                     (execute_commit
                        (stacks_update_text record (stack_differences record table_entry)) w))"
proof -
  note f = formatted_of_record [OF assms(1)]
  from cached_stack_search(1) [OF assms(1,2)] obtain others where
    s: "search_rows (cache w ''stacks'') ''Stack'' (dict_get record ''stack'')
          = Inr (table_entry # others)" by blast
  have d: "(differing_columns
              [(''Stack'', PStr (py_str (the (dict_get record ''stack'')))),
               (''locallocation'', the (dict_get record ''local_location'')),
               (''prodlocation'', the (dict_get record ''prod_location'')),
               (''remotelocation'', the (dict_get record ''remote_location''))] table_entry = [])
           = (stack_differences record table_entry = [])"
    by (simp add: differing_columns_differences [OF assms(1) f])
  show ?thesis
    unfolding update_stack_record_found [OF f s has_stack_columns_list [OF assms(3)]] d
      update_data_table_def stacks_update_text_eq [OF assms(1) f]
    by simp
qed

lemma stack_in_step_unchanged: "stack_in_step rows record \<Longrightarrow> stack_unchanged rows record"
proof -
  assume a: "stack_in_step rows record"
  then have ok: "stack_record_ok rows record" by (simp add: stack_in_step_def)
  from a obtain e where e: "cached_stack rows record = Some e" "has_stack_columns e"
    "stack_differences record e = []"
    by (auto simp: stack_in_step_def split: option.splits)
  from cached_stack_search(1) [OF ok e(1)] obtain others where
    s: "search_rows rows ''Stack'' (dict_get record ''stack'') = Inr (e # others)" by blast
  note f = formatted_of_record [OF ok]
  from differing_columns_differences [OF ok f, of e] e(3)
  have "differing_columns
              [(''Stack'', PStr (py_str (the (dict_get record ''stack'')))),
               (''locallocation'', the (dict_get record ''local_location'')),
               (''prodlocation'', the (dict_get record ''prod_location'')),
               (''remotelocation'', the (dict_get record ''remote_location''))] e = []"
    by simp
  then have "list_all (\<lambda>column. dict_get
              [(''Stack'', PStr (py_str (the (dict_get record ''stack'')))),
               (''locallocation'', the (dict_get record ''local_location'')),
               (''prodlocation'', the (dict_get record ''prod_location'')),
               (''remotelocation'', the (dict_get record ''remote_location''))] column
                = dict_get e column) stack_columns"
    by (simp add: differing_columns_def filter_empty_conv list_all_iff)
  with has_stack_columns_list [OF e(2)] show ?thesis
    by (simp add: stack_unchanged_def f s list_all_iff)
qed


lemma example_ok:
  "stack_record_ok (example_stack_cache l ''stacks'') example_stack_record"
  "cached_stack (example_stack_cache l ''stacks'') example_stack_record
     = Some [(''ID'', PInt 1), (''Stack'', PStr ''S1''), (''locallocation'', PStr l),
             (''prodlocation'', PStr ''B''), (''remotelocation'', PStr ''C'')]"
  "has_stack_columns [(''ID'', PInt 1), (''Stack'', PStr ''S1''), (''locallocation'', PStr l),
             (''prodlocation'', PStr ''B''), (''remotelocation'', PStr ''C'')]"
  "stack_differences example_stack_record
     [(''ID'', PInt 1), (''Stack'', PStr ''S1''), (''locallocation'', PStr l),
      (''prodlocation'', PStr ''B''), (''remotelocation'', PStr ''C'')]
     = (if l = ''A2'' then [] else [(''locallocation'', ''local_location'')])"
  by (simp_all add: stack_record_ok_def example_stack_cache_def example_stack_record_def
        cached_stack_def has_stack_columns_def mutable_stack_columns_def stack_differences_def
        dict_get_def)

lemma example_update_text:
  "stacks_update_text example_stack_record [(''locallocation'', ''local_location'')]
     = example_stack_update"
  by (simp add: stacks_update_text_def example_stack_record_def example_stack_update_def
        dict_get_def)



lemma insert_columns_loop_strings:
  "distinct cols \<Longrightarrow>
   list_all (\<lambda>c. c \<noteq> ''datecreated'' \<and> c \<noteq> ''ID'' \<and> (\<exists>s. dict_get d c = Some (PStr s))) cols \<Longrightarrow>
   \<exists>d1. insert_columns_loop cols (d, ci, vi)
          = Inr (d1, ci @ map (\<lambda>c. ''['' @ c @ '']'') cols,
                 vi @ map (\<lambda>c. sq @ replace_sq (py_str (the (dict_get d c))) @ sq) cols)"
proof (induction cols arbitrary: d ci vi)
  case Nil
  then show ?case by simp
next
  case (Cons c cols)
  from Cons.prems obtain s where s: "dict_get d c = Some (PStr s)"
    and c: "c \<noteq> ''datecreated''" "c \<noteq> ''ID''" by auto
  let ?d1 = "if CHR 0x27 \<in> set s then dict_set c (PStr (replace_sq s)) d else d"
  have v1: "dict_get ?d1 c = Some (PStr (replace_sq s))"
    using s by (simp add: dict_get_dict_set replace_sq_no_quote)
  have same: "dict_get ?d1 c' = dict_get d c'" if "c' \<in> set cols" for c'
    using that Cons.prems(1) by (auto simp: dict_get_dict_set)
  have ok: "list_all (\<lambda>c. c \<noteq> ''datecreated'' \<and> c \<noteq> ''ID''
                          \<and> (\<exists>s. dict_get ?d1 c = Some (PStr s))) cols"
    using Cons.prems(2) same by (simp add: list_all_iff)
  from Cons.prems(1) have dist: "distinct cols" by simp
  from Cons.IH [OF dist ok, of "ci @ [''['' @ c @ '']'']" "vi @ [sq @ replace_sq s @ sq]"]
  obtain d2 where r: "insert_columns_loop cols
         (?d1, ci @ [''['' @ c @ '']''], vi @ [sq @ replace_sq s @ sq])
       = Inr (d2, (ci @ [''['' @ c @ '']'']) @ map (\<lambda>c. ''['' @ c @ '']'') cols,
              (vi @ [sq @ replace_sq s @ sq])
                @ map (\<lambda>c. sq @ replace_sq (py_str (the (dict_get ?d1 c))) @ sq) cols)"
    by blast
  have m: "map (\<lambda>c. sq @ replace_sq (py_str (the (dict_get ?d1 c))) @ sq) cols
             = map (\<lambda>c. sq @ replace_sq (py_str (the (dict_get d c))) @ sq) cols"
    by (rule map_cong) (simp_all add: same)
  have step: "insert_columns_loop (c # cols) (d, ci, vi)
                = insert_columns_loop cols
                    (?d1, ci @ [''['' @ c @ '']''], vi @ [sq @ replace_sq s @ sq])"
  proof (cases "CHR 0x27 \<in> set s")
    case True
    then show ?thesis using s c by (simp add: substring_single dict_get_dict_set)
  next
    case False
    then show ?thesis using s c by (simp add: substring_single replace_sq_no_quote)
  qed
  show ?case
    unfolding step r m using s by (intro exI [of _ d2]) simp
qed

lemma insert_quiet_strings:
  assumes "raises w = (\<lambda>h e. None)" and "distinct (keys d)"
      and "list_all (\<lambda>c. c \<noteq> ''datecreated'' \<and> c \<noteq> ''ID''
                          \<and> (\<exists>s. dict_get d c = Some (PStr s))) (keys d)"
  shows "insert_data_to_table t d w
           = (Inr (), w\<lparr>trace := trace w
                @ [Execute (single_insert_text t (keys d)
                     (map (\<lambda>c. sq @ replace_sq (py_str (the (dict_get d c))) @ sq) (keys d))),
                   Commit]\<rparr>)"
proof -
  from insert_columns_loop_strings [OF assms(2,3), of "[]" "[]"] obtain d1 where
    l: "insert_columns_loop (keys d) (d, [], [])
          = Inr (d1, map (\<lambda>c. ''['' @ c @ '']'') (keys d),
                 map (\<lambda>c. sq @ replace_sq (py_str (the (dict_get d c))) @ sq) (keys d))"
    by auto
  have t: "insert_statement t (map (\<lambda>c. ''['' @ c @ '']'') (keys d)) vals
             = single_insert_text t (keys d) vals" for vals
    by (simp add: insert_statement_def single_insert_text_def)
  show ?thesis
    unfolding insert_data_to_table_def l
    by (simp only: sum.case prod.case t execute_commit_quiet [OF assms(1)]
          except_ResourceWarning_Inr)
qed

text \<open>
  The two branches of lines 931 to 964 with a store that accepts every call. A stack that
  is not cached is inserted, with its values escaped, and the stacks cache is read again from
  the store. A cached stack that differs is updated, and the cache stays as it was.
\<close>

lemma stack_writes_and_cache:
  "(raises w = (\<lambda>h e. None)
      \<and> stack_record_ok (cache w ''stacks'') record
      \<and> cached_stack (cache w ''stacks'') record = None
      \<and> dict_get record ''local_location'' = Some (PStr local_location)
      \<and> dict_get record ''prod_location'' = Some (PStr prod_location)
      \<and> dict_get record ''remote_location'' = Some (PStr remote_location)
      \<and> inserted = single_insert_text ''stacks''
                      [''Stack'', ''locallocation'', ''prodlocation'', ''remotelocation'']
                      [sq @ replace_sq (py_str (the (dict_get record ''stack''))) @ sq,
                       sq @ replace_sq local_location @ sq,
                       sq @ replace_sq prod_location @ sq,
                       sq @ replace_sq remote_location @ sq]
    \<longrightarrow> update_stack_record record w
          = (Inr (),
             w\<lparr>trace := trace w @ [Execute inserted, Commit,
                                    Execute ''SELECT * FROM [storagetooling].[dbo].[stacks]''],
               cache := (cache w)
                 (''stacks'' := answers w (trace w @ [Execute inserted, Commit])
                                  ''SELECT * FROM [storagetooling].[dbo].[stacks]'')\<rparr>))
   \<and> (raises w = (\<lambda>h e. None)
      \<and> stack_record_ok (cache w ''stacks'') record
      \<and> cached_stack (cache w ''stacks'') record = Some table_entry
      \<and> has_stack_columns table_entry
      \<and> stack_differences record table_entry \<noteq> []
    \<longrightarrow> update_stack_record record w
          = (Inr (),
             w\<lparr>trace := trace w
                 @ [Execute (stacks_update_text record (stack_differences record table_entry)),
                    Commit]\<rparr>))"
proof (intro conjI impI)
  assume a: "raises w = (\<lambda>h e. None)
      \<and> stack_record_ok (cache w ''stacks'') record
      \<and> cached_stack (cache w ''stacks'') record = None
      \<and> dict_get record ''local_location'' = Some (PStr local_location)
      \<and> dict_get record ''prod_location'' = Some (PStr prod_location)
      \<and> dict_get record ''remote_location'' = Some (PStr remote_location)
      \<and> inserted = single_insert_text ''stacks''
                      [''Stack'', ''locallocation'', ''prodlocation'', ''remotelocation'']
                      [sq @ replace_sq (py_str (the (dict_get record ''stack''))) @ sq,
                       sq @ replace_sq local_location @ sq,
                       sq @ replace_sq prod_location @ sq,
                       sq @ replace_sq remote_location @ sq]"
  then have q: "raises w = (\<lambda>h e. None)" and ok: "stack_record_ok (cache w ''stacks'') record"
    and nf: "cached_stack (cache w ''stacks'') record = None" by simp_all
  let ?f = "[(''Stack'', PStr (py_str (the (dict_get record ''stack'')))),
             (''locallocation'', PStr local_location),
             (''prodlocation'', PStr prod_location),
             (''remotelocation'', PStr remote_location)]"
  have f: "stacks_data_formatted record = Inr ?f"
    using formatted_of_record [OF ok] a by simp
  have s: "search_rows (cache w ''stacks'') ''Stack'' (dict_get record ''stack'') = Inr []"
    by (rule cached_stack_search(2) [OF ok nf])
  let ?w1 = "w\<lparr>trace := trace w @ [Execute inserted, Commit]\<rparr>"
  have ins: "insert_data_to_table ''stacks'' ?f w = (Inr (), ?w1)"
    using insert_quiet_strings [OF q, of ?f "''stacks''"] a
    by (simp add: keys_def dict_get_def)
  have q1: "raises ?w1 = (\<lambda>h e. None)" using q by simp
  have sel: "select_query ''stacks'' = ''SELECT * FROM [storagetooling].[dbo].[stacks]''"
    by (simp add: select_query_def)
  show "update_stack_record record w
          = (Inr (),
             w\<lparr>trace := trace w @ [Execute inserted, Commit,
                                    Execute ''SELECT * FROM [storagetooling].[dbo].[stacks]''],
               cache := (cache w)
                 (''stacks'' := answers w (trace w @ [Execute inserted, Commit])
                                  ''SELECT * FROM [storagetooling].[dbo].[stacks]'')\<rparr>)"
    unfolding update_stack_record_def f s
    by (simp add: ins read_quiet [OF q1] sel)
next
  assume a: "raises w = (\<lambda>h e. None)
      \<and> stack_record_ok (cache w ''stacks'') record
      \<and> cached_stack (cache w ''stacks'') record = Some table_entry
      \<and> has_stack_columns table_entry
      \<and> stack_differences record table_entry \<noteq> []"
  then have q: "raises w = (\<lambda>h e. None)" by simp
  from a have "update_stack_record record w
           = (if stack_differences record table_entry = [] then (Inr (), w)
              else except_ResourceWarning
                     (execute_commit
                        (stacks_update_text record (stack_differences record table_entry)) w))"
    by (intro update_stack_record_cached) simp_all
  with a show "update_stack_record record w
          = (Inr (),
             w\<lparr>trace := trace w
                 @ [Execute (stacks_update_text record (stack_differences record table_entry)),
                    Commit]\<rparr>)"
    by (simp add: execute_commit_quiet [OF q])
qed

text \<open>
  Claim C8. The claim asks that the cache of a table is read again after every write to it,
  before the table is looked up again in the same pass. The insert of a stack does so; the
  update of a stack does not (line 964 is followed by no \<^verbatim>\<open>__read_sql_tables_to_cache\<close>).
  Here the stack S1 is cached with the local location A and comes in twice with A2, the
  store accepting every call. For the first record the update is executed and committed, and
  the world after it differs only by these two calls: the cache still has A. In the whole pass
  the stacks table is never queried, the second record is compared with the row as cached
  before the update, and the same update is sent a second time.
\<close>

theorem stack_update_leaves_cache_stale:
  "update_stack_record example_stack_record example_twice_world
     = (Inr (), example_twice_world\<lparr>trace := [Execute example_stack_update, Commit]\<rparr>)
   \<and> fst (update_stack_data example_twice_world) = Inr ()
   \<and> trace (snd (update_stack_data example_twice_world))
       = [Execute example_stack_update, Commit,
          Execute ''SELECT * FROM [storagetooling].[dbo].[webs]'',
          Execute ''SELECT * FROM [storagetooling].[dbo].[webs]'',
          Execute example_stack_update, Commit,
          Execute ''SELECT * FROM [storagetooling].[dbo].[webs]'',
          Execute ''SELECT * FROM [storagetooling].[dbo].[webs]'',
          Execute (''UPDATE [dbo].[UpdateTracking] SET [stacks] = '' @ dq
                     @ ''2024-01-01 00:00:00'' @ dq),
          Commit]
   \<and> cache (snd (update_stack_data example_twice_world)) ''stacks''
       = [[(''ID'', PInt 1), (''Stack'', PStr ''S1''), (''locallocation'', PStr ''A''),
           (''prodlocation'', PStr ''B''), (''remotelocation'', PStr ''C'')]]"
proof -
  have q: "raises example_twice_world = (\<lambda>h e. None)"
    and c: "cache example_twice_world ''stacks'' = example_stack_cache ''A'' ''stacks''"
    and t: "trace example_twice_world = []"
    by (simp_all add: example_twice_world_def example_world_def)
  from stack_writes_and_cache [of example_twice_world example_stack_record _ _ _ _
          "[(''ID'', PInt 1), (''Stack'', PStr ''S1''), (''locallocation'', PStr ''A''),
            (''prodlocation'', PStr ''B''), (''remotelocation'', PStr ''C'')]"]
  have one: "update_stack_record example_stack_record example_twice_world
     = (Inr (), example_twice_world\<lparr>trace := [Execute example_stack_update, Commit]\<rparr>)"
    unfolding c by (simp add: q t example_ok example_update_text)
  have pass: "fst (update_stack_data example_twice_world) = Inr ()
   \<and> trace (snd (update_stack_data example_twice_world))
       = [Execute example_stack_update, Commit,
          Execute ''SELECT * FROM [storagetooling].[dbo].[webs]'',
          Execute ''SELECT * FROM [storagetooling].[dbo].[webs]'',
          Execute example_stack_update, Commit,
          Execute ''SELECT * FROM [storagetooling].[dbo].[webs]'',
          Execute ''SELECT * FROM [storagetooling].[dbo].[webs]'',
          Execute (''UPDATE [dbo].[UpdateTracking] SET [stacks] = '' @ dq
                     @ ''2024-01-01 00:00:00'' @ dq),
          Commit]
   \<and> cache (snd (update_stack_data example_twice_world)) ''stacks''
       = [[(''ID'', PInt 1), (''Stack'', PStr ''S1''), (''locallocation'', PStr ''A''),
           (''prodlocation'', PStr ''B''), (''remotelocation'', PStr ''C'')]]"
    by code_simp
  from one pass show ?thesis by (rule conjI)
qed

section \<open>A switch that the cache lacks\<close>

lemma carried_on_refl [simp]: "carried_on T w w"
  by (simp add: carried_on_def)

lemma carried_on_trans:
  "carried_on T w w' \<Longrightarrow> carried_on T' w' w'' \<Longrightarrow> carried_on (T \<union> T') w w''"
  unfolding carried_on_def by (auto intro: prefix_order.trans)

lemma carried_on_mono: "carried_on T w w' \<Longrightarrow> T \<subseteq> T' \<Longrightarrow> carried_on T' w w'"
  unfolding carried_on_def by auto

lemma carried_on_execute_commit: "carried_on {} w (snd (execute_commit s w))"
  by (auto simp: carried_on_def execute_commit_def cursor_execute_def conn_commit_def
           split: option.splits)

lemma carried_on_insert: "carried_on {} w (snd (insert_data_to_table t d w))"
  by (auto simp: insert_data_to_table_def carried_on_execute_commit split: sum.splits)

lemma carried_on_read: "carried_on {t} w (snd (read_sql_tables_to_cache t w))"
  unfolding snd_read by (auto simp: carried_on_def split: option.splits)

lemma carried_on_then_do:
  "carried_on T w (snd r) \<Longrightarrow> (\<And>w1. carried_on T' w1 (snd (f w1)))
     \<Longrightarrow> carried_on (T \<union> T') w (snd (then_do r f))"
  by (cases r; cases "fst r") (auto intro: carried_on_trans carried_on_mono)

lemma carried_on_insert_missing: "carried_on {} w (snd (insert_missing_names t vs w))"
proof (induction vs arbitrary: w)
  case Nil
  then show ?case by simp
next
  case (Cons v vs)
  have "carried_on ({} \<union> {}) w
          (snd (then_do (insert_data_to_table t [(''name'', v)] w) (insert_missing_names t vs)))"
    by (intro carried_on_then_do carried_on_insert Cons.IH)
  then show ?case
    by (auto split: sum.splits simp: Cons.IH)
qed

lemma carried_on_sync:
  "carried_on {if t = ''activeZones'' then ''zone'' else t} w (snd (sync_id_table t w))"
proof (cases "t = ''activeZones''")
  case True
  let ?w1 = "w\<lparr>activezone_object_id_table_dict_list :=
                      activezone_object_id_table_dict_list w
                        @ concat (map (\<lambda>record. case activeZones record of
                                                   None \<Rightarrow> [] | Some zones \<Rightarrow> [zones])
                                    (sannav w))\<rparr>"
  have a: "carried_on {} w ?w1" by (simp add: carried_on_def)
  have "carried_on ({} \<union> {''zone''}) ?w1
          (snd (then_do (insert_missing_names ''zone''
                 (set_order ?w1 (map PStr (concat (activezone_object_id_table_dict_list ?w1)))) ?w1)
              (read_sql_tables_to_cache ''zone'')))"
    by (intro carried_on_then_do carried_on_insert_missing carried_on_read)
  from carried_on_trans [OF a this] show ?thesis
    using True by (simp add: sync_id_table_def Let_def)
next
  case False
  have "carried_on ({} \<union> {t}) w
          (snd (then_do (insert_missing_names t vs w) (read_sql_tables_to_cache t)))" for vs
    by (intro carried_on_then_do carried_on_insert_missing carried_on_read)
  then show ?thesis
    using False by (auto simp: sync_id_table_def split: sum.splits)
qed

lemma carried_on_get_runid: "carried_on {} w (snd (get_runid w))"
proof -
  obtain r1 w1 where i: "insert_data_to_table ''run'' [(''capturedatetime'', PStr (now w (trace w)))] w
                           = (r1, w1)"
    by (cases "insert_data_to_table ''run'' [(''capturedatetime'', PStr (now w (trace w)))] w")
  from carried_on_insert [of w "''run''" "[(''capturedatetime'', PStr (now w (trace w)))]"] i
  have c1: "carried_on {} w w1" by simp
  have c2: "carried_on {} w1 (snd (cursor_execute s w1))" for s
    by (simp add: carried_on_def cursor_execute_def)
  show ?thesis
  proof (cases r1)
    case (Inl e)
    then show ?thesis using i c1 by (cases e) (simp_all add: get_runid_def Let_def)
  next
    case (Inr u)
    let ?q = "runid_query (now w (trace w))"
    obtain r2 w2 where x: "cursor_execute ?q w1 = (r2, w2)" by (cases "cursor_execute ?q w1")
    with c2 [of ?q] have "carried_on {} w1 w2" by simp
    with c1 have c: "carried_on {} w w2" using carried_on_trans by fastforce
    show ?thesis
    proof (cases r2)
      case (Inl e)
      then show ?thesis using i Inr x c by (cases e) (simp_all add: get_runid_def Let_def)
    next
      case (Inr u2)
      then show ?thesis using i \<open>r1 = Inr u\<close> x c by (simp add: get_runid_def Let_def)
    qed
  qed
qed


lemma search_rows_found:
  "search_rows rows key (Some x) = Inr found \<Longrightarrow>
   found = filter (\<lambda>row. dict_get row key = Some x) rows"
  by (induction rows arbitrary: found) (auto split: option.splits sum.splits)

lemma filter_find: "filter P xs = e # others \<Longrightarrow> find P xs = Some e"
  by (induction xs) (auto split: if_splits)

lemma insert_name_quiet:
  assumes "raises w = (\<lambda>h e. None)"
  shows "insert_data_to_table t [(''name'', PStr n)] w
           = (Inr (), w\<lparr>trace := trace w
                @ [Execute (single_insert_text t [''name''] [sq @ replace_sq n @ sq]), Commit]\<rparr>)"
  using insert_quiet_strings [OF assms, of "[(''name'', PStr n)]" t]
  by (simp add: keys_def dict_get_def)

lemma insert_missing_names_trace:
  "\<exists>body. snd (insert_missing_names t vs w) = w\<lparr>trace := trace w @ body\<rparr>"
proof (induction vs arbitrary: w)
  case Nil
  show ?case by (intro exI [of _ "[]"]) simp
next
  case (Cons v vs)
  have ins: "\<exists>b. snd (insert_data_to_table t [(''name'', v)] w) = w\<lparr>trace := trace w @ b\<rparr>"
    by (auto simp: insert_data_to_table_def execute_commit_def cursor_execute_def conn_commit_def
             split: sum.splits option.splits intro: exI [of _ "[]"])
  show ?case
  proof (cases "search_rows (cache w t) ''name'' (Some v)")
    case (Inl e)
    then show ?thesis by (intro exI [of _ "[]"]) simp
  next
    case (Inr found)
    show ?thesis
    proof (cases "found = []")
      case False
      with Inr Cons.IH [of w] show ?thesis by simp
    next
      case True
      obtain r1 w1 where i: "insert_data_to_table t [(''name'', v)] w = (r1, w1)"
        by (cases "insert_data_to_table t [(''name'', v)] w")
      with ins obtain b where b: "w1 = w\<lparr>trace := trace w @ b\<rparr>" by auto
      show ?thesis
      proof (cases r1)
        case (Inl e)
        with Inr True i b show ?thesis by (intro exI [of _ b]) simp
      next
        case (Inr u)
        from Cons.IH [of w1] obtain body where
          "snd (insert_missing_names t vs w1) = w1\<lparr>trace := trace w1 @ body\<rparr>" by blast
        with \<open>search_rows (cache w t) ''name'' (Some v) = Inr found\<close> True i b Inr
        show ?thesis by (intro exI [of _ "b @ body"]) simp
      qed
    qed
  qed
qed

lemma insert_missing_names_inserts:
  assumes "raises w = (\<lambda>h e. None)"
      and "insert_missing_names t vs w = (Inr (), w')"
      and "PStr n \<in> set vs"
      and "find (\<lambda>item. dict_get item ''name'' = Some (PStr n)) (cache w t) = None"
  shows "\<exists>pre post. w' = w\<lparr>trace := trace w @ pre
            @ [Execute (single_insert_text t [''name''] [sq @ replace_sq n @ sq]), Commit] @ post\<rparr>"
  using assms
proof (induction vs arbitrary: w)
  case Nil
  then show ?case by simp
next
  case (Cons v vs)
  let ?ins = "[Execute (single_insert_text t [''name''] [sq @ replace_sq n @ sq]), Commit]"
  from Cons.prems(2) obtain found where s: "search_rows (cache w t) ''name'' (Some v) = Inr found"
    by (cases "search_rows (cache w t) ''name'' (Some v)") auto
  show ?case
  proof (cases "v = PStr n")
    case True
    from search_rows_found [OF s] Cons.prems(4) True have e: "found = []"
      by (simp add: find_filter_None)
    from Cons.prems(2) s e True insert_name_quiet [OF Cons.prems(1), of t n]
    have r: "insert_missing_names t vs (w\<lparr>trace := trace w @ ?ins\<rparr>) = (Inr (), w')" by simp
    from insert_missing_names_trace [of t vs "w\<lparr>trace := trace w @ ?ins\<rparr>"] r
    obtain body where "w' = w\<lparr>trace := trace w @ ?ins @ body\<rparr>" by auto
    then show ?thesis by (intro exI [of _ "[]"] exI [of _ body]) simp
  next
    case False
    with Cons.prems(3) have mem: "PStr n \<in> set vs" by simp
    show ?thesis
    proof (cases "found = []")
      case False
      with Cons.prems(2) s have "insert_missing_names t vs w = (Inr (), w')" by simp
      from Cons.IH [OF Cons.prems(1) this mem Cons.prems(4)] show ?thesis .
    next
      case True
      obtain r1 w1 where i: "insert_data_to_table t [(''name'', v)] w = (r1, w1)"
        by (cases "insert_data_to_table t [(''name'', v)] w")
      from Cons.prems(2) s True i have r1: "r1 = Inr ()"
        and r: "insert_missing_names t vs w1 = (Inr (), w')"
        by (cases r1; simp)+
      from carried_on_insert [of w t "[(''name'', v)]"] i
      have c: "raises w1 = raises w" "cache w1 = cache w" "prefix (trace w) (trace w1)"
        by (auto simp: carried_on_def)
      from insert_missing_names_trace [of t "[v]" w] s True i r1
      obtain b where b: "w1 = w\<lparr>trace := trace w @ b\<rparr>" by auto
      from Cons.IH [of w1, OF _ r mem] c Cons.prems(1,4)
      obtain pre post where "w' = w1\<lparr>trace := trace w1 @ pre @ ?ins @ post\<rparr>" by auto
      with b show ?thesis by (intro exI [of _ "b @ pre"] exI [of _ post]) simp
    qed
  qed
qed

lemma map_itemgetter_mem:
  "map_itemgetter source items = Inr vs \<Longrightarrow> item \<in> set items \<Longrightarrow>
   dict_get (entries item) source = Some v \<Longrightarrow> v \<in> set vs"
  by (induction items arbitrary: vs)
     (auto simp: ex_bind_def dict_item_def split: sum.splits option.splits)

lemma then_do_InrD:
  "then_do r f = (Inr u, w') \<Longrightarrow> \<exists>w1. r = (Inr (), w1) \<and> f w1 = (Inr u, w')"
  by (cases r; cases "fst r") (auto simp: then_do_def)

lemma switch_sync:
  assumes quiet: "raises w = (\<lambda>h e. None)"
      and order: "\<forall>xs. set (set_order w xs) = set xs"
      and sync: "sync_id_table ''switch'' w = (Inr (), w')"
      and item: "item \<in> set (sannav w)"
      and name: "dict_get (entries item) ''switchName'' = Some (PStr n)"
      and new: "find (\<lambda>item. dict_get item ''name'' = Some (PStr n)) (cache w ''switch'') = None"
  shows "\<exists>pre post.
           trace w' = trace w @ pre @ [Execute (switch_insert n), Commit] @ post
                        @ [Execute ''SELECT * FROM [storagetooling].[dbo].[switch]'']
         \<and> cache w' ''switch''
             = answers w (trace w @ pre @ [Execute (switch_insert n), Commit] @ post)
                 ''SELECT * FROM [storagetooling].[dbo].[switch]''"
proof -
  from sync obtain vs where vs: "map_itemgetter ''switchName'' (sannav w) = Inr vs"
    by (cases "map_itemgetter ''switchName'' (sannav w)")
       (auto simp: sync_id_table_def id_table_source_def)
  with sync have "then_do (insert_missing_names ''switch'' (set_order w vs) w)
                    (read_sql_tables_to_cache ''switch'') = (Inr (), w')"
    by (simp add: sync_id_table_def id_table_source_def)
  from then_do_InrD [OF this] obtain w1 where
    m: "insert_missing_names ''switch'' (set_order w vs) w = (Inr (), w1)"
    and r: "read_sql_tables_to_cache ''switch'' w1 = (Inr (), w')" by blast
  from map_itemgetter_mem [OF vs item name] order have "PStr n \<in> set (set_order w vs)" by simp
  from insert_missing_names_inserts [OF quiet m this new] obtain pre post where
    w1: "w1 = w\<lparr>trace := trace w @ pre
            @ [Execute (single_insert_text ''switch'' [''name''] [sq @ replace_sq n @ sq]), Commit]
            @ post\<rparr>" by blast
  have t: "single_insert_text ''switch'' [''name''] [sq @ replace_sq n @ sq] = switch_insert n"
    by (simp add: single_insert_text_def switch_insert_def)
  have q1: "raises w1 = (\<lambda>h e. None)" using quiet w1 by simp
  have sel: "select_query ''switch'' = ''SELECT * FROM [storagetooling].[dbo].[switch]''"
    by (simp add: select_query_def)
  from r read_quiet [OF q1, of "''switch''"] have
    "w' = w1\<lparr>trace := trace w1 @ [Execute (select_query ''switch'')],
             cache := (cache w1)(''switch'' := answers w1 (trace w1) (select_query ''switch''))\<rparr>"
    by simp
  then show ?thesis
    unfolding w1 t sel by (intro exI [of _ pre] exI [of _ post]) simp
qed


lemma classify_keeps_entry:
  "classify_entitytype d = Inr d1 \<Longrightarrow> k \<noteq> ''entitytype'' \<Longrightarrow> dict_get d1 k = dict_get d k"
  by (auto simp: classify_entitytype_def ex_bind_def dict_item_def dict_get_dict_set
           split: option.splits sum.splits if_splits)

lemma default_remoteNodeWwn_keeps_entry:
  "default_remoteNodeWwn d = Inr d1 \<Longrightarrow> k \<noteq> ''remoteNodeWwn'' \<Longrightarrow> dict_get d1 k = dict_get d k"
  by (auto simp: default_remoteNodeWwn_def ex_bind_def dict_item_def dict_get_dict_set
           split: option.splits sum.splits if_splits)

lemma fill_defaults_switchName:
  "dict_get (entries (fill_defaults item)) ''switchName'' = dict_get (entries item) ''switchName''"
  by (simp add: fill_defaults_def Let_def dict_get_dict_set)

lemma first_ID_Inr:
  "first_ID found = Inr ident \<Longrightarrow> \<exists>item others. found = item # others \<and> dict_get item ''ID'' = Some ident"
  by (auto simp: first_ID_def dict_item_def split: list.splits option.splits)

lemma id_tables_loop_switch:
  assumes "id_tables_loop sannav_common_id_tables c obj base = Inr row"
  shows "\<exists>found ident. search_rows (c ''switch'') ''name'' (dict_get obj ''switchName'') = Inr found
           \<and> first_ID found = Inr ident
           \<and> dict_get row ''switchNameid'' = Some (PStr (py_str ident))"
  using assms
  by (auto simp: sannav_common_id_tables_def source_label_def ex_bind_def dict_get_dict_set
           split: sum.splits)

lemma format_row_switch:
  assumes built: "format_sannav_insert_data c r runid = (Inr (row, zones), r')"
      and name: "dict_get (entries r) ''switchName'' = Some v"
  shows "\<exists>item ident. find (\<lambda>item. dict_get item ''name'' = Some v) (c ''switch'') = Some item
           \<and> dict_get item ''ID'' = Some ident
           \<and> dict_get row ''switchNameid'' = Some (PStr (py_str ident))"
proof -
  from built obtain e1 e2 base where
    e1: "classify_entitytype (entries r) = Inr e1"
    and e2: "default_remoteNodeWwn e1 = Inr e2"
    and loop: "id_tables_loop sannav_common_id_tables c e2 base = Inr row"
    by (auto simp: format_sannav_insert_data_def ex_bind_def split: sum.splits option.splits)
  from classify_keeps_entry [OF e1, of "''switchName''"]
       default_remoteNodeWwn_keeps_entry [OF e2, of "''switchName''"] name
  have n2: "dict_get e2 ''switchName'' = Some v" by simp
  from id_tables_loop_switch [OF loop] n2 obtain found ident where
    s: "search_rows (c ''switch'') ''name'' (Some v) = Inr found"
    and f: "first_ID found = Inr ident"
    and g: "dict_get row ''switchNameid'' = Some (PStr (py_str ident))" by auto
  from first_ID_Inr [OF f] obtain item others where
    i: "found = item # others" "dict_get item ''ID'' = Some ident" by blast
  from search_rows_found [OF s] i(1)
  have "filter (\<lambda>row. dict_get row ''name'' = Some v) (c ''switch'') = item # others" by simp
  from filter_find [OF this] i(2) g show ?thesis by blast
qed

lemma carried_on_syncs:
  "carried_on ((\<lambda>t. if t = ''activeZones'' then ''zone'' else t) ` set ts) w
     (snd (sync_id_tables ts w))"
proof (induction ts arbitrary: w)
  case Nil
  show ?case by simp
next
  case (Cons t ts)
  have "carried_on ({if t = ''activeZones'' then ''zone'' else t}
                      \<union> (\<lambda>t. if t = ''activeZones'' then ''zone'' else t) ` set ts) w
          (snd (then_do (sync_id_table t w) (sync_id_tables ts)))"
    by (intro carried_on_then_do carried_on_sync Cons.IH)
  then show ?case
    unfolding sync_id_tables.simps by (rule carried_on_mono) auto
qed

lemma sync_id_tables_split:
  "sync_id_tables (xs @ t # ys) w = (Inr (), w') \<Longrightarrow>
   \<exists>wd we. carried_on ((\<lambda>t. if t = ''activeZones'' then ''zone'' else t) ` set xs) w wd
          \<and> sync_id_table t wd = (Inr (), we)
          \<and> carried_on ((\<lambda>t. if t = ''activeZones'' then ''zone'' else t) ` set ys) we w'"
proof (induction xs arbitrary: w)
  case Nil
  then have "then_do (sync_id_table t w) (sync_id_tables ys) = (Inr (), w')" by simp
  from then_do_InrD [OF this] obtain we where
    a: "sync_id_table t w = (Inr (), we)" and b: "sync_id_tables ys we = (Inr (), w')" by blast
  from carried_on_syncs [of ys we] b
  have "carried_on ((\<lambda>t. if t = ''activeZones'' then ''zone'' else t) ` set ys) we w'" by simp
  with a show ?case by (intro exI [of _ w] exI [of _ we]) simp
next
  case (Cons x xs)
  then have "then_do (sync_id_table x w) (sync_id_tables (xs @ t # ys)) = (Inr (), w')" by simp
  from then_do_InrD [OF this] obtain wx where
    a: "sync_id_table x w = (Inr (), wx)"
    and b: "sync_id_tables (xs @ t # ys) wx = (Inr (), w')" by blast
  from Cons.IH [OF b] obtain wd we where
    c: "carried_on ((\<lambda>t. if t = ''activeZones'' then ''zone'' else t) ` set xs) wx wd"
    and d: "sync_id_table t wd = (Inr (), we)"
    and e: "carried_on ((\<lambda>t. if t = ''activeZones'' then ''zone'' else t) ` set ys) we w'"
    by blast
  from carried_on_sync [of x w] a
  have "carried_on {if x = ''activeZones'' then ''zone'' else x} w wx" by simp
  from carried_on_trans [OF this c]
  have "carried_on ((\<lambda>t. if t = ''activeZones'' then ''zone'' else t) ` set (x # xs)) w wd"
    by (rule carried_on_mono) auto
  with d e show ?case by blast
qed



end
